theory Spec2Isabelle
  imports Main "HOL-Library.Word" "HOL-Library.Signed_Division"
begin

unbundle bit_operations_syntax

section \<open>AsteroidRunner: the sketch as a state machine\<close>

text \<open>
  The sketch \<^verbatim>\<open>AsteroidRunner.ino\<close> is one loop over global variables. The model
  keeps every global (and every function-local \<^verbatim>\<open>static\<close>) as a field of one record,
  each state function as a function from that record to the updated record, and the
  calls on the display as a trace of commands appended in program order.

  Integer types are those of the AVR target: \<^verbatim>\<open>uint8_t\<close> is an 8-bit word, \<^verbatim>\<open>long\<close>
  and \<^verbatim>\<open>unsigned long\<close> are 32-bit words (read with \<open>sint\<close> and \<open>unat\<close>).
\<close>

type_synonym u8 = "8 word"
type_synonym u32 = "32 word"

subsection \<open>Display collaborator\<close>

datatype BackLightColor = RED | YELLOW | GREEN | TEAL | BLUE | VIOLET | WHITE

text \<open>The numeric value of each enumerator.\<close>

fun BackLightColor_value :: "BackLightColor \<Rightarrow> u8" where
  "BackLightColor_value RED = 0x1"
| "BackLightColor_value YELLOW = 0x3"
| "BackLightColor_value GREEN = 0x2"
| "BackLightColor_value TEAL = 0x6"
| "BackLightColor_value BLUE = 0x4"
| "BackLightColor_value VIOLET = 0x5"
| "BackLightColor_value WHITE = 0x7"

text \<open>One constructor per method of the \<^verbatim>\<open>lcd\<close> object that the sketch calls.\<close>

datatype lcd_cmd =
    Begin u8 u8
  | CreateChar u8 "u8 list"
  | Clear
  | SetBacklight BackLightColor
  | SetCursor u8 u8
  | WriteGlyph u8
  | PrintStr string
  | PrintNum int
  | ScrollDisplayLeft

definition sprites :: "u8 list list" where
  "sprites =
    [ [0x00,0x0e,0x0e,0x00,0x00,0x00,0x00,0x00],
      [0x00,0x00,0x00,0x00,0x00,0x0e,0x0e,0x00],
      [0x00,0x0e,0x0e,0x00,0x00,0x0e,0x0e,0x00],
      [0x10,0x1e,0x1f,0x0c,0x00,0x00,0x00,0x00],
      [0x00,0x00,0x00,0x00,0x10,0x1e,0x1f,0x0c],
      [0x10,0x1e,0x1f,0x0c,0x00,0x0e,0x0e,0x00],
      [0x00,0x0e,0x0e,0x00,0x10,0x1e,0x1f,0x0c] ]"

definition TOP_ASTEROID_SPRITE_IDX :: u8 where "TOP_ASTEROID_SPRITE_IDX = 0"
definition BOTTOM_ASTEROID_SPRITE_IDX :: u8 where "BOTTOM_ASTEROID_SPRITE_IDX = 1"
definition TOP_BOTTOM_ASTEROID_SPRITE_IDX :: u8 where "TOP_BOTTOM_ASTEROID_SPRITE_IDX = 2"
definition TOP_SHIP_SPRITE_IDX :: u8 where "TOP_SHIP_SPRITE_IDX = 3"
definition BOTTOM_SHIP_SPRITE_IDX :: u8 where "BOTTOM_SHIP_SPRITE_IDX = 4"
definition TOP_SHIP_BOTTOM_ASTEROID_SPRITE_IDX :: u8 where
  "TOP_SHIP_BOTTOM_ASTEROID_SPRITE_IDX = 5"
definition BOTTOM_SHIP_TOP_ASTEROID_SPRITE_IDX :: u8 where
  "BOTTOM_SHIP_TOP_ASTEROID_SPRITE_IDX = 6"

text \<open>
  The button masks are macros of the display shield's library header
  (\<^verbatim>\<open>Adafruit_RGBLCDShield.h\<close>), which is not part of the sketch. No proof below
  unfolds them: every general theorem holds for any values of the three masks.
\<close>

definition BUTTON_SELECT :: u8 where "BUTTON_SELECT = 0x01"
definition BUTTON_DOWN :: u8 where "BUTTON_DOWN = 0x04"
definition BUTTON_UP :: u8 where "BUTTON_UP = 0x08"

text \<open>
  The colour the display shows after a trace of commands: the argument of the last
  \<^verbatim>\<open>setBacklight\<close>, or the given colour if there was none.
\<close>

fun backlight :: "BackLightColor option \<Rightarrow> lcd_cmd list \<Rightarrow> BackLightColor option" where
  "backlight b [] = b"
| "backlight b (SetBacklight c # cs) = backlight (Some c) cs"
| "backlight b (_ # cs) = backlight b cs"

subsection \<open>Global state\<close>

text \<open>The functions a \<^verbatim>\<open>void (*)()\<close> state pointer can hold.\<close>

datatype state_fn =
    Fn_begin_splash_screen
  | Fn_animate_splash_screen
  | Fn_start_game
  | Fn_begin_wave
  | Fn_begin_wave_delay
  | Fn_end_wave
  | Fn_end_wave_delay
  | Fn_play_game
  | Fn_game_over
  | Fn_game_over_delay

text \<open>
  \<open>last_state\<close> is \<open>None\<close> while the pointer is \<^verbatim>\<open>NULL\<close>. \<open>last_buttons\<close> is the
  static of \<^verbatim>\<open>read_button_clicks\<close>; \<open>blink\<close> and \<open>last_blink_time\<close> are the statics
  of \<^verbatim>\<open>animate_splash_screen\<close>. \<open>lcd\<close> is the trace of display commands so far.
\<close>

record game =
  state :: state_fn
  last_state :: "state_fn option"
  last_state_change_time :: u32
  time :: u32
  clicked_buttons :: u8
  asteroids :: "u8 list"
  shield_power :: u8
  wave :: u8
  score :: u32
  render_col :: u8
  player_col :: u8
  player_row :: u8
  last_render :: u32
  last_buttons :: u8
  blink :: bool
  last_blink_time :: u32
  lcd :: "lcd_cmd list"

text \<open>
  What one iteration of \<^verbatim>\<open>loop\<close> reads from outside: \<^verbatim>\<open>millis()\<close>,
  \<^verbatim>\<open>lcd.readButtons()\<close>, and the values the generator behind \<^verbatim>\<open>random\<close> yields
  for the two rows of a frame.
\<close>

record tick_input =
  millis :: u32
  readButtons :: u8
  rnd0 :: nat
  rnd1 :: nat

definition lcd_call :: "lcd_cmd \<Rightarrow> game \<Rightarrow> game" where
  "lcd_call c s = s\<lparr>lcd := lcd s @ [c]\<rparr>"

text \<open>
  \<^verbatim>\<open>random(howbig)\<close> of the Arduino core: 0 when \<open>howbig\<close> is 0, otherwise the
  generator's next value modulo \<open>howbig\<close>.
\<close>

definition random :: "u8 \<Rightarrow> nat \<Rightarrow> nat" where
  "random howbig r = (if howbig = 0 then 0 else r mod unat howbig)"

subsection \<open>The state after the one-time initialisation\<close>

definition setup_state :: game where
  "setup_state =
    \<lparr> state = Fn_begin_splash_screen,
      last_state = None,
      last_state_change_time = 0,
      time = 0,
      clicked_buttons = 0,
      asteroids = replicate 40 0,
      shield_power = 0,
      wave = 0,
      score = 0,
      render_col = 16,
      player_col = 0,
      player_row = 0,
      last_render = 0,
      last_buttons = 0,
      blink = True,
      last_blink_time = 0,
      lcd = Begin 16 2 #
        map (\<lambda>i. CreateChar (of_nat i) (sprites ! i)) [0 ..< 7] \<rparr>"

subsection \<open>Common functions\<close>

definition read_button_clicks :: "u8 \<Rightarrow> game \<Rightarrow> game" where
  "read_button_clicks buttons s =
     s\<lparr> clicked_buttons := (last_buttons s XOR buttons) AND (NOT buttons),
        last_buttons := buttons \<rparr>"

definition draw_game_screen :: "BackLightColor \<Rightarrow> string \<Rightarrow> bool \<Rightarrow> game \<Rightarrow> game" where
  "draw_game_screen bl message print_wave s =
     s\<lparr> lcd := lcd s @
         [Clear, SetBacklight bl, SetCursor 0 0, PrintStr message] @
         (if print_wave then [PrintNum (uint (wave s))] else []) @
         [SetCursor 0 1, WriteGlyph BOTTOM_SHIP_SPRITE_IDX,
          SetCursor 15 1, WriteGlyph BOTTOM_SHIP_SPRITE_IDX,
          SetCursor 2 1, PrintStr ''SCORE '', PrintNum (sint (score s))] \<rparr>"

subsection \<open>Game start states\<close>

definition begin_splash_screen :: "game \<Rightarrow> game" where
  "begin_splash_screen s =
     (s\<lparr> lcd := lcd s @ [Clear, SetBacklight TEAL, PrintStr ''ASTEROID  RUNNER''] \<rparr>)
      \<lparr> state := Fn_animate_splash_screen \<rparr>"

definition animate_splash_screen :: "game \<Rightarrow> game" where
  "animate_splash_screen s =
     (let s1 =
        (if time s - last_blink_time s \<ge> 1000 then
           s\<lparr> lcd := lcd s @ [SetCursor 0 1] @
                 (if blink s
                  then [WriteGlyph 0x7E, PrintStr '' PRESS SELECT '', WriteGlyph 0x7F]
                  else [PrintStr ''                '']),
              blink := \<not> blink s,
              last_blink_time := time s \<rparr>
         else s)
      in if clicked_buttons s1 AND BUTTON_SELECT \<noteq> 0
         then s1\<lparr> state := Fn_start_game \<rparr> else s1)"

definition start_game :: "game \<Rightarrow> game" where
  "start_game s = s\<lparr> score := 0, wave := 1, state := Fn_begin_wave \<rparr>"

subsection \<open>Wave transition states\<close>

definition begin_wave :: "game \<Rightarrow> game" where
  "begin_wave s =
     (draw_game_screen GREEN ''BEGIN WAVE '' True s)
      \<lparr> asteroids := replicate 40 0,
        shield_power := 10,
        render_col := 16,
        player_col := 0,
        player_row := 0,
        last_render := 0,
        state := Fn_begin_wave_delay \<rparr>"

definition begin_wave_delay :: "game \<Rightarrow> game" where
  "begin_wave_delay s =
     (if time s - last_state_change_time s \<ge> 3000
      then (lcd_call Clear s)\<lparr> state := Fn_play_game \<rparr> else s)"

text \<open>
  \<^verbatim>\<open>shield_power * 10\<close> is computed in \<^verbatim>\<open>int\<close> (at most 2550) and widened to
  \<^verbatim>\<open>long\<close> for the addition.
\<close>

definition end_wave :: "game \<Rightarrow> game" where
  "end_wave s =
     (draw_game_screen GREEN ''END WAVE '' True
        (s\<lparr> score := score s + of_nat (unat (shield_power s) * 10) \<rparr>))
      \<lparr> state := Fn_end_wave_delay \<rparr>"

definition end_wave_delay :: "game \<Rightarrow> game" where
  "end_wave_delay s =
     (if time s - last_state_change_time s \<ge> 3000
      then s\<lparr> wave := wave s + 1, state := Fn_begin_wave \<rparr> else s)"

subsection \<open>Main game loop state\<close>

text \<open>
  The bound handed to \<^verbatim>\<open>random\<close>: \<^verbatim>\<open>uint8_t asteroid_type = 13 - wave\<close>, then raised
  to 3 when below 3. The difference is stored in eight bits.
\<close>

definition asteroid_type :: "u8 \<Rightarrow> u8" where
  "asteroid_type w = (let a = 13 - w in if a < 3 then 3 else a)"

text \<open>
  The body of the \<^verbatim>\<open>for\<close> loop for row \<open>i\<close>, with \<open>r\<close> the generator's value. A mask
  such as \<^verbatim>\<open>0x01 << (i * 2)\<close> is an \<^verbatim>\<open>int\<close>; it is or-ed into a \<^verbatim>\<open>uint8_t\<close>, which
  keeps its low eight bits.
\<close>

definition or_asteroid :: "u8 \<Rightarrow> game \<Rightarrow> game" where
  "or_asteroid m s =
     s\<lparr> asteroids := (asteroids s)
          [unat (render_col s) := (asteroids s ! unat (render_col s)) OR m] \<rparr>"

definition generate_row :: "nat \<Rightarrow> nat \<Rightarrow> game \<Rightarrow> game" where
  "generate_row i r s =
     (let s1 = lcd_call (SetCursor (render_col s) (of_nat i)) s;
          d = random (asteroid_type (wave s1)) r;
          s2 =
            (if d = 0 then
               or_asteroid (push_bit (i * 2) 0x01) (lcd_call (WriteGlyph TOP_ASTEROID_SPRITE_IDX) s1)
             else if d = 1 then
               or_asteroid (push_bit (i * 2) 0x02) (lcd_call (WriteGlyph BOTTOM_ASTEROID_SPRITE_IDX) s1)
             else if d = 2 then
               (if wave s1 > 5 then
                  or_asteroid (push_bit (i * 2) 0x03)
                    (lcd_call (WriteGlyph TOP_BOTTOM_ASTEROID_SPRITE_IDX) s1)
                else lcd_call (PrintStr '' '') s1)
             else lcd_call (PrintStr '' '') s1)
      in s2\<lparr> score := score s2 + 1 \<rparr>)"

text \<open>The collision branch, written twice in the source with the same body.\<close>

definition collision :: "game \<Rightarrow> game" where
  "collision s =
     (let s1 = lcd_call (SetBacklight RED) s
      in if shield_power s1 = 0 then s1\<lparr> state := Fn_game_over \<rparr>
         else s1\<lparr> shield_power := shield_power s1 - 1 \<rparr>)"

text \<open>
  Lines 328 to 364: the ship is moved one column on and drawn, then the collision test.
  The shift count \<^verbatim>\<open>player_row / 2 * 2\<close> is 0 or 2 for rows 0 to 3; the masks are
  \<^verbatim>\<open>int\<close>s and the cell is a \<^verbatim>\<open>uint8_t\<close>, so only the low eight bits of a mask can
  meet a bit of the cell.
\<close>

definition draw_ship :: "game \<Rightarrow> game" where
  "draw_ship s =
     (let s1 = s\<lparr> player_col := (if player_col s < 39 then player_col s + 1 else 0) \<rparr>;
          s2 = lcd_call (SetCursor (player_col s1) (player_row s1 div 2)) s1;
          cell = asteroids s2 ! unat (player_col s2);
          sh = unat (player_row s2) div 2 * 2
      in if player_row s2 mod 2 = 0 then
           (let s3 = lcd_call (WriteGlyph
                       (if cell AND push_bit sh 0x02 \<noteq> 0
                        then TOP_SHIP_BOTTOM_ASTEROID_SPRITE_IDX else TOP_SHIP_SPRITE_IDX)) s2
            in if cell AND push_bit sh 0x01 \<noteq> 0 then collision s3 else s3)
         else
           (let s3 = lcd_call (WriteGlyph
                       (if cell AND push_bit sh 0x01 \<noteq> 0
                        then BOTTOM_SHIP_TOP_ASTEROID_SPRITE_IDX else BOTTOM_SHIP_SPRITE_IDX)) s2
            in if cell AND push_bit sh 0x02 \<noteq> 0 then collision s3 else s3))"

text \<open>The body of \<^verbatim>\<open>if (time - last_render >= 250)\<close>: one frame.\<close>

definition render_frame :: "tick_input \<Rightarrow> game \<Rightarrow> game" where
  "render_frame e s =
     (let s1 = lcd_call (SetBacklight
                 (if shield_power s > 6 then BLUE
                  else if shield_power s > 3 then YELLOW else RED)) s;
          s2 = s1\<lparr> render_col := (if render_col s1 < 39 then render_col s1 + 1 else 0) \<rparr>;
          s3 = s2\<lparr> asteroids := (asteroids s2)[unat (render_col s2) := 0] \<rparr>;
          s4 = generate_row 0 (rnd0 e) s3;
          s5 = generate_row 1 (rnd1 e) s4;
          s6 = lcd_call ScrollDisplayLeft s5;
          s7 = draw_ship s6
      in s7\<lparr> last_render := time s7 \<rparr>)"

text \<open>Lines 369 to 378: the ship's row follows the clicks, then the end-of-wave test.\<close>

definition move_ship :: "game \<Rightarrow> game" where
  "move_ship s =
     (let s1 = (if clicked_buttons s AND BUTTON_UP \<noteq> 0
                then s\<lparr> player_row := (if player_row s > 0 then player_row s - 1 else 0) \<rparr>
                else s)
      in if clicked_buttons s1 AND BUTTON_DOWN \<noteq> 0
         then s1\<lparr> player_row := (if player_row s1 < 3 then player_row s1 + 1 else 3) \<rparr>
         else s1)"

definition play_game :: "tick_input \<Rightarrow> game \<Rightarrow> game" where
  "play_game e s =
     (let s1 = (if time s - last_render s \<ge> 250 then render_frame e s else s);
          s2 = move_ship s1
      in if sint (score s2) smod 500 = 0 then s2\<lparr> state := Fn_end_wave \<rparr> else s2)"

subsection \<open>Game over states\<close>

definition game_over :: "game \<Rightarrow> game" where
  "game_over s = (draw_game_screen RED ''GAME OVER'' False s)\<lparr> state := Fn_game_over_delay \<rparr>"

definition game_over_delay :: "game \<Rightarrow> game" where
  "game_over_delay s =
     (if time s - last_state_change_time s \<ge> 5000
      then s\<lparr> state := Fn_begin_splash_screen \<rparr> else s)"

subsection \<open>Main loop\<close>

text \<open>The call \<^verbatim>\<open>state()\<close> through the function pointer.\<close>

fun call_state :: "state_fn \<Rightarrow> tick_input \<Rightarrow> game \<Rightarrow> game" where
  "call_state Fn_begin_splash_screen e s = begin_splash_screen s"
| "call_state Fn_animate_splash_screen e s = animate_splash_screen s"
| "call_state Fn_start_game e s = start_game s"
| "call_state Fn_begin_wave e s = begin_wave s"
| "call_state Fn_begin_wave_delay e s = begin_wave_delay s"
| "call_state Fn_end_wave e s = end_wave s"
| "call_state Fn_end_wave_delay e s = end_wave_delay s"
| "call_state Fn_play_game e s = play_game e s"
| "call_state Fn_game_over e s = game_over s"
| "call_state Fn_game_over_delay e s = game_over_delay s"

text \<open>The part of \<^verbatim>\<open>loop\<close> before the state function is called.\<close>

definition loop_prologue :: "tick_input \<Rightarrow> game \<Rightarrow> game" where
  "loop_prologue e s =
     (let s1 = s\<lparr> time := millis e \<rparr>;
          s2 = (if last_state s1 \<noteq> Some (state s1)
                then s1\<lparr> last_state := Some (state s1), last_state_change_time := time s1 \<rparr>
                else s1)
      in read_button_clicks (readButtons e) s2)"

definition loop :: "tick_input \<Rightarrow> game \<Rightarrow> game" where
  "loop e s = (let s1 = loop_prologue e s in call_state (state s1) e s1)"

text \<open>The sketch run from a state: one \<^verbatim>\<open>loop\<close> per element of the list.\<close>

fun run :: "game \<Rightarrow> tick_input list \<Rightarrow> game" where
  "run s [] = s"
| "run s (e # es) = run (loop e s) es"

section \<open>Example states and inputs\<close>

text \<open>
  A state of wave 1 after forty frames: the render column is back at 16 and the ship
  back at column 0, on the top half-row. The cell the ship enters next (column 1) holds
  one obstacle, in the bottom half of character row 0.
\<close>

definition play_example :: game where
  "play_example =
    \<lparr> state = Fn_play_game,
      last_state = Some Fn_play_game,
      last_state_change_time = 3000,
      time = 13000,
      clicked_buttons = 0,
      asteroids = (replicate 40 0)[1 := 0x02],
      shield_power = 10,
      wave = 1,
      score = 80,
      render_col = 16,
      player_col = 0,
      player_row = 0,
      last_render = 13000,
      last_buttons = 0,
      blink = False,
      last_blink_time = 0,
      lcd = [] \<rparr>"

text \<open>A tick 250 ms later with no button held; both draws are 5 (an empty half-row pair).\<close>

definition frame_input :: tick_input where
  "frame_input = \<lparr> millis = 13250, readButtons = 0, rnd0 = 5, rnd1 = 5 \<rparr>"

text \<open>
  The state before the last frame of wave 1 in a game that took ten hits. It is the state
  the sketch is in after the splash screen, a click on select, the wave banner and 249
  frames, when the draw for row 0 is 0 (a top obstacle) in frames 1 to 10 and in frame
  234 and 5 (nothing) in all other frames: ten hits in frames 17 to 26, a top obstacle
  waiting in column 10. The display trace is left empty here.
\<close>

definition last_frame_example :: game where
  "last_frame_example =
    \<lparr> state = Fn_play_game,
      last_state = Some Fn_play_game,
      last_state_change_time = 3300,
      time = 65300,
      clicked_buttons = 0,
      asteroids = (replicate 40 0)[10 := 0x01],
      shield_power = 0,
      wave = 1,
      score = 498,
      render_col = 25,
      player_col = 9,
      player_row = 0,
      last_render = 65300,
      last_buttons = 0,
      blink = True,
      last_blink_time = 0,
      lcd = [] \<rparr>"

text \<open>The tick 250 ms later; both draws are 5.\<close>

definition last_frame_input :: tick_input where
  "last_frame_input = \<lparr> millis = 65550, readButtons = 0, rnd0 = 5, rnd1 = 5 \<rparr>"

section \<open>The obstacle generator's bound\<close>

text \<open>
  Up to wave 13 the bound is \<open>max 3 (13 - wave)\<close>; from wave 14 on the eight-bit
  difference has wrapped around and the bound is \<open>269 - wave\<close>.
\<close>

lemma asteroid_type_upto_13:
  assumes "w \<le> 13"
  shows "uint (asteroid_type w) = max 3 (13 - uint w)"
proof -
  from assms have le: "uint w \<le> 13" by (simp add: word_le_def)
  then have u: "uint (13 - w) = 13 - uint w"
    by (simp add: uint_sub_if')
  have "uint (asteroid_type w) = (if 13 - uint w < 3 then 3 else 13 - uint w)"
    using u by (simp add: asteroid_type_def Let_def word_less_def)
  then show ?thesis using le by (simp split: if_splits)
qed

lemma asteroid_type_from_14:
  assumes "14 \<le> w"
  shows "uint (asteroid_type w) = 269 - uint w"
proof -
  from assms have le: "14 \<le> uint w" by (simp add: word_le_def)
  have lt: "uint w < 256" using uint_bounded[of w] by simp
  have u: "uint (13 - w) = 269 - uint w"
    using le lt by (simp add: uint_sub_if')
  show ?thesis
    using u le lt by (simp add: asteroid_type_def Let_def word_less_def)
qed

text \<open>
  C3. The claim gives the bound as \<open>max(3, 13 - wave)\<close> over the integers, so 3 for every
  wave from 10 on. The sketch stores \<open>13 - wave\<close> in a \<^verbatim>\<open>uint8_t\<close> before it compares
  with 3, so the comparison that should raise the bound to 3 never sees a negative
  difference. At wave 14 the bound is 255, where the claim says 3.
\<close>

theorem asteroid_type_wave_14:
  "uint (asteroid_type 14) = 255 \<and> max 3 (13 - uint (14 :: u8)) = 3"
  by code_simp

section \<open>Effect of each function on the globals\<close>

lemmas state_fn_defs =
  begin_splash_screen_def animate_splash_screen_def start_game_def begin_wave_def
  begin_wave_delay_def end_wave_def end_wave_delay_def game_over_def game_over_delay_def
  draw_game_screen_def lcd_call_def

lemma generate_row_fields:
  "state (generate_row i r s) = state s"
  "clicked_buttons (generate_row i r s) = clicked_buttons s"
  "last_buttons (generate_row i r s) = last_buttons s"
  "shield_power (generate_row i r s) = shield_power s"
  "wave (generate_row i r s) = wave s"
  "render_col (generate_row i r s) = render_col s"
  "player_col (generate_row i r s) = player_col s"
  "player_row (generate_row i r s) = player_row s"
  "time (generate_row i r s) = time s"
  "score (generate_row i r s) = score s + 1"
  by (simp_all add: generate_row_def Let_def lcd_call_def or_asteroid_def)

lemma collision_fields:
  "clicked_buttons (collision s) = clicked_buttons s"
  "last_buttons (collision s) = last_buttons s"
  "wave (collision s) = wave s"
  "render_col (collision s) = render_col s"
  "player_col (collision s) = player_col s"
  "player_row (collision s) = player_row s"
  "time (collision s) = time s"
  "score (collision s) = score s"
  "asteroids (collision s) = asteroids s"
  by (simp_all add: collision_def Let_def lcd_call_def)

lemma collision_effect:
  "shield_power (collision s) = (if shield_power s = 0 then 0 else shield_power s - 1)"
  "state (collision s) = (if shield_power s = 0 then Fn_game_over else state s)"
  "lcd (collision s) = lcd s @ [SetBacklight RED]"
  by (simp_all add: collision_def Let_def lcd_call_def)

lemma draw_ship_fields:
  "clicked_buttons (draw_ship s) = clicked_buttons s"
  "last_buttons (draw_ship s) = last_buttons s"
  "wave (draw_ship s) = wave s"
  "render_col (draw_ship s) = render_col s"
  "player_col (draw_ship s) = (if player_col s < 39 then player_col s + 1 else 0)"
  "player_row (draw_ship s) = player_row s"
  "time (draw_ship s) = time s"
  "score (draw_ship s) = score s"
  "asteroids (draw_ship s) = asteroids s"
  by (simp_all add: draw_ship_def Let_def lcd_call_def collision_fields)

lemma render_frame_fields:
  "clicked_buttons (render_frame e s) = clicked_buttons s"
  "last_buttons (render_frame e s) = last_buttons s"
  "wave (render_frame e s) = wave s"
  "render_col (render_frame e s) = (if render_col s < 39 then render_col s + 1 else 0)"
  "player_col (render_frame e s) = (if player_col s < 39 then player_col s + 1 else 0)"
  "player_row (render_frame e s) = player_row s"
  "time (render_frame e s) = time s"
  "score (render_frame e s) = score s + 2"
  by (simp_all add: render_frame_def Let_def lcd_call_def draw_ship_fields generate_row_fields)

lemma move_ship_fields:
  "state (move_ship s) = state s"
  "clicked_buttons (move_ship s) = clicked_buttons s"
  "last_buttons (move_ship s) = last_buttons s"
  "shield_power (move_ship s) = shield_power s"
  "wave (move_ship s) = wave s"
  "render_col (move_ship s) = render_col s"
  "player_col (move_ship s) = player_col s"
  "time (move_ship s) = time s"
  "score (move_ship s) = score s"
  "asteroids (move_ship s) = asteroids s"
  "lcd (move_ship s) = lcd s"
  by (simp_all add: move_ship_def Let_def)

lemma play_game_fields:
  "clicked_buttons (play_game e s) = clicked_buttons s"
  "last_buttons (play_game e s) = last_buttons s"
  "wave (play_game e s) = wave s"
  "score (play_game e s) = (if time s - last_render s \<ge> 250 then score s + 2 else score s)"
  by (simp_all add: play_game_def Let_def move_ship_fields render_frame_fields)

lemma call_state_buttons:
  "clicked_buttons (call_state f e s) = clicked_buttons s"
  "last_buttons (call_state f e s) = last_buttons s"
  by (cases f; simp add: play_game_fields state_fn_defs Let_def)+

lemma loop_prologue_fields:
  "state (loop_prologue e s) = state s"
  "time (loop_prologue e s) = millis e"
  "clicked_buttons (loop_prologue e s) =
     (last_buttons s XOR readButtons e) AND NOT (readButtons e)"
  "last_buttons (loop_prologue e s) = readButtons e"
  "shield_power (loop_prologue e s) = shield_power s"
  "wave (loop_prologue e s) = wave s"
  "score (loop_prologue e s) = score s"
  "render_col (loop_prologue e s) = render_col s"
  "player_col (loop_prologue e s) = player_col s"
  "player_row (loop_prologue e s) = player_row s"
  "last_render (loop_prologue e s) = last_render s"
  "asteroids (loop_prologue e s) = asteroids s"
  "lcd (loop_prologue e s) = lcd s"
  by (simp_all add: loop_prologue_def read_button_clicks_def Let_def)

lemma loop_prologue_timer:
  "last_state_change_time (loop_prologue e s) =
     (if last_state s = Some (state s) then last_state_change_time s else millis e)"
  by (simp add: loop_prologue_def read_button_clicks_def Let_def)

lemma loop_buttons:
  "clicked_buttons (loop e s) = (last_buttons s XOR readButtons e) AND NOT (readButtons e)"
  "last_buttons (loop e s) = readButtons e"
  by (simp_all add: loop_def Let_def call_state_buttons loop_prologue_fields)

lemma run_snoc: "run s (es @ [e]) = loop e (run s es)"
  by (induction es arbitrary: s) simp_all

lemma last_buttons_run:
  "last_buttons (run s es) = (if es = [] then last_buttons s else readButtons (last es))"
  by (induction es rule: rev_induct) (simp_all add: run_snoc loop_buttons)

lemma falling_edge_bit:
  fixes a b :: u8
  shows "bit ((a XOR b) AND NOT b) k \<longleftrightarrow> bit a k \<and> \<not> bit b k"
  by (auto simp: bit_and_iff bit_xor_iff bit_not_iff dest: bit_imp_le_length)

lemma loop_score:
  "score (loop e s) =
     (case state s of
        Fn_start_game \<Rightarrow> 0
      | Fn_end_wave \<Rightarrow> score s + of_nat (unat (shield_power s) * 10)
      | Fn_play_game \<Rightarrow> (if millis e - last_render s \<ge> 250 then score s + 2 else score s)
      | _ \<Rightarrow> score s)"
  by (cases "state s";
      simp add: loop_def Let_def loop_prologue_fields play_game_fields state_fn_defs)


lemma backlight_append: "backlight b (xs @ ys) = backlight (backlight b xs) ys"
  by (induction b xs rule: backlight.induct) simp_all

lemma top_mask_even:
  fixes r cell :: u8
  assumes "r mod 2 = 0"
  shows "(cell AND push_bit (unat r div 2 * 2) 0x01 \<noteq> 0) = bit cell (unat r)"
proof -
  have "unat (r mod 2) = unat r mod 2" by (simp add: unat_mod)
  with assms have "unat r mod 2 = 0" by simp
  then have "unat r div 2 * 2 = unat r" by presburger
  then show ?thesis
    by (simp add: and_exp_eq_0_iff_not_bit)
qed

lemma bottom_mask_odd:
  fixes r cell :: u8
  assumes "r mod 2 \<noteq> 0"
  shows "(cell AND push_bit (unat r div 2 * 2) 0x02 \<noteq> 0) = bit cell (unat r)"
proof -
  have "unat r mod 2 \<noteq> 0"
  proof
    assume "unat r mod 2 = 0"
    then have "unat (r mod 2) = 0" by (simp add: unat_mod)
    then have "r mod 2 = 0" by (simp only: unat_eq_0)
    with assms show False by simp
  qed
  then have "Suc (unat r div 2 * 2) = unat r" by presburger
  moreover have "push_bit n (2 :: u8) = 2 ^ Suc n" for n
    by (simp add: push_bit_eq_mult)
  ultimately show ?thesis
    by (simp add: and_exp_eq_0_iff_not_bit del: power_Suc)
qed


lemma draw_ship_effect:
  fixes s :: game
  defines "c \<equiv> (if player_col s < 39 then player_col s + 1 else 0)"
  defines "hit \<equiv> bit (asteroids s ! unat c) (unat (player_row s))"
  shows "shield_power (draw_ship s) =
           (if hit \<and> shield_power s \<noteq> 0 then shield_power s - 1 else shield_power s)"
    and "state (draw_ship s) = (if hit \<and> shield_power s = 0 then Fn_game_over else state s)"
    and "backlight b (lcd (draw_ship s)) = (if hit then Some RED else backlight b (lcd s))"
proof -
  show "shield_power (draw_ship s) =
           (if hit \<and> shield_power s \<noteq> 0 then shield_power s - 1 else shield_power s)"
    unfolding hit_def c_def
    by (cases "player_row s mod 2 = 0")
       (simp_all add: draw_ship_def Let_def lcd_call_def collision_effect
          top_mask_even bottom_mask_odd del: push_bit_of_1)
  show "state (draw_ship s) = (if hit \<and> shield_power s = 0 then Fn_game_over else state s)"
    unfolding hit_def c_def
    by (cases "player_row s mod 2 = 0")
       (simp_all add: draw_ship_def Let_def lcd_call_def collision_effect
          top_mask_even bottom_mask_odd del: push_bit_of_1)
  show "backlight b (lcd (draw_ship s)) = (if hit then Some RED else backlight b (lcd s))"
    unfolding hit_def c_def
    by (cases "player_row s mod 2 = 0")
       (simp_all add: draw_ship_def Let_def lcd_call_def collision_effect
          top_mask_even bottom_mask_odd backlight_append del: push_bit_of_1)
qed

lemma generate_row_lcd_backlight:
  "backlight b (lcd (generate_row i r s)) = backlight b (lcd s)"
  by (simp add: generate_row_def Let_def lcd_call_def or_asteroid_def backlight_append)

lemma render_frame_effect:
  fixes s :: game and e :: tick_input
  defines "s' \<equiv> render_frame e s"
  defines "hit \<equiv> bit (asteroids s' ! unat (player_col s')) (unat (player_row s'))"
  shows "shield_power s' =
           (if hit \<and> shield_power s \<noteq> 0 then shield_power s - 1 else shield_power s)"
    and "state s' = (if hit \<and> shield_power s = 0 then Fn_game_over else state s)"
    and "backlight b (lcd s') =
           (if hit then Some RED
            else Some (if shield_power s > 6 then BLUE
                       else if shield_power s > 3 then YELLOW else RED))"
proof -
  define s3 where "s3 =
    (lcd_call (SetBacklight (if shield_power s > 6 then BLUE
                             else if shield_power s > 3 then YELLOW else RED)) s)
    \<lparr> render_col := (if render_col s < 39 then render_col s + 1 else 0) \<rparr>"
  define s6 where "s6 =
    lcd_call ScrollDisplayLeft
      (generate_row 1 (rnd1 e) (generate_row 0 (rnd0 e)
         (s3\<lparr> asteroids := (asteroids s3)[unat (render_col s3) := 0] \<rparr>)))"
  have rf: "s' = (draw_ship s6)\<lparr> last_render := time (draw_ship s6) \<rparr>"
    by (simp add: s'_def render_frame_def Let_def s6_def s3_def lcd_call_def)
  have pre: "shield_power s6 = shield_power s" "state s6 = state s"
    "backlight b (lcd s6) = Some (if shield_power s > 6 then BLUE
                                  else if shield_power s > 3 then YELLOW else RED)"
    by (simp_all add: s6_def s3_def lcd_call_def generate_row_fields
          generate_row_lcd_backlight backlight_append)
  have post: "asteroids s' = asteroids s6" "player_row s' = player_row s6"
    "player_col s' = (if player_col s6 < 39 then player_col s6 + 1 else 0)"
    by (simp_all add: rf draw_ship_fields)
  have h: "hit = bit (asteroids s6 ! unat (if player_col s6 < 39 then player_col s6 + 1 else 0))
                     (unat (player_row s6))"
    by (simp only: hit_def post)
  show "shield_power s' =
           (if hit \<and> shield_power s \<noteq> 0 then shield_power s - 1 else shield_power s)"
    by (simp add: rf draw_ship_effect(1) h pre)
  show "state s' = (if hit \<and> shield_power s = 0 then Fn_game_over else state s)"
    by (simp add: rf draw_ship_effect(2) h pre)
  show "backlight b (lcd s') =
           (if hit then Some RED
            else Some (if shield_power s > 6 then BLUE
                       else if shield_power s > 3 then YELLOW else RED))"
    by (simp add: rf draw_ship_effect(3) h pre)
qed



lemma unat_col_step:
  "unat (if c < 39 then c + 1 else (0 :: u8)) = (if unat c < 39 then unat c + 1 else 0)"
proof (cases "c < 39")
  case True
  then have "unat c < 39" by (simp add: word_less_nat_alt)
  then show ?thesis using True by (simp add: unat_word_ariths)
next
  case False
  then have "\<not> unat c < 39" by (simp add: word_less_nat_alt)
  then show ?thesis using False by simp
qed

lemma unat_row_up: "unat (if r > 0 then r - 1 else (0 :: u8)) = unat r - 1"
proof (cases "r = 0")
  case True
  then show ?thesis by simp
next
  case False
  then have "0 < r" by (simp add: word_greater_zero_iff)
  then show ?thesis using False by (simp add: unat_minus_one)
qed

lemma unat_row_down: "unat (if r < 3 then r + 1 else (3 :: u8)) = min 3 (unat r + 1)"
proof (cases "r < 3")
  case True
  then have "unat r < 3" by (simp add: word_less_nat_alt)
  then show ?thesis using True by (simp add: unat_word_ariths)
next
  case False
  then have "\<not> unat r < 3" by (simp add: word_less_nat_alt)
  then show ?thesis using False by simp
qed

lemma move_ship_row:
  "unat (player_row (move_ship s)) =
     (let r1 = (if clicked_buttons s AND BUTTON_UP \<noteq> 0
                then unat (player_row s) - 1 else unat (player_row s))
      in if clicked_buttons s AND BUTTON_DOWN \<noteq> 0 then min 3 (r1 + 1) else r1)"
proof -
  define u where "u r = (if r > 0 then r - 1 else (0 :: u8))" for r
  define d where "d r = (if r < 3 then r + 1 else (3 :: u8))" for r
  have U: "unat (u r) = unat r - 1" for r
    unfolding u_def by (rule unat_row_up)
  have D: "unat (d r) = min 3 (unat r + 1)" for r
    unfolding d_def by (rule unat_row_down)
  have "player_row (move_ship s) =
          (let r1 = (if clicked_buttons s AND BUTTON_UP \<noteq> 0
                     then u (player_row s) else player_row s)
           in if clicked_buttons s AND BUTTON_DOWN \<noteq> 0 then d r1 else r1)"
    by (simp add: move_ship_def Let_def u_def d_def)
  then show ?thesis
    by (simp add: Let_def U D)
qed

lemma move_ship_row_le:
  assumes "player_row s \<le> 3"
  shows "player_row (move_ship s) \<le> 3"
proof -
  from assms have "unat (player_row s) \<le> 3" by (simp add: word_le_nat_alt)
  then have "unat (player_row (move_ship s)) \<le> 3"
    by (auto simp add: move_ship_row Let_def)
  then show ?thesis by (simp add: word_le_nat_alt)
qed

lemma shield_step_le:
  fixes p :: u8
  assumes "p \<le> 10"
  shows "(if h \<and> p \<noteq> 0 then p - 1 else p) \<le> 10"
proof (cases "h \<and> p \<noteq> 0")
  case True
  then have "unat (p - 1) = unat p - 1" by (simp add: unat_minus_one)
  moreover from assms have "unat p \<le> 10" by (simp add: word_le_nat_alt)
  ultimately have "unat (p - 1) \<le> 10" by simp
  then show ?thesis using True by (simp add: word_le_nat_alt)
next
  case False
  then show ?thesis using assms by auto
qed

lemma play_game_bounds:
  "player_row s \<le> 3 \<Longrightarrow> player_row (play_game e s) \<le> 3"
  "render_col s \<le> 39 \<Longrightarrow> render_col (play_game e s) \<le> 39"
  "player_col s \<le> 39 \<Longrightarrow> player_col (play_game e s) \<le> 39"
  "shield_power s \<le> 10 \<Longrightarrow> shield_power (play_game e s) \<le> 10"
proof -
  define s1 where "s1 = (if time s - last_render s \<ge> 250 then render_frame e s else s)"
  have pg: "play_game e s =
      (if sint (score (move_ship s1)) smod 500 = 0
       then (move_ship s1)\<lparr> state := Fn_end_wave \<rparr> else move_ship s1)"
    by (simp add: play_game_def Let_def s1_def)
  show "player_row (play_game e s) \<le> 3" if "player_row s \<le> 3"
  proof -
    from that have "player_row s1 \<le> 3" by (simp add: s1_def render_frame_fields)
    then show ?thesis by (simp add: pg move_ship_row_le)
  qed
  show "render_col (play_game e s) \<le> 39" if "render_col s \<le> 39"
    using that by (simp add: pg s1_def move_ship_fields render_frame_fields inc_le)
  show "player_col (play_game e s) \<le> 39" if "player_col s \<le> 39"
    using that by (simp add: pg s1_def move_ship_fields render_frame_fields inc_le)
  show "shield_power (play_game e s) \<le> 10" if "shield_power s \<le> 10"
    using that shield_step_le[of "shield_power s"]
    by (simp add: pg s1_def move_ship_fields render_frame_effect(1))
qed

lemma loop_bounds:
  assumes "player_row s \<le> 3 \<and> render_col s \<le> 39 \<and> player_col s \<le> 39 \<and> shield_power s \<le> 10"
  shows "player_row (loop e s) \<le> 3 \<and> render_col (loop e s) \<le> 39 \<and>
         player_col (loop e s) \<le> 39 \<and> shield_power (loop e s) \<le> 10"
proof -
  define s1 where "s1 = loop_prologue e s"
  have s1: "player_row s1 \<le> 3" "render_col s1 \<le> 39" "player_col s1 \<le> 39" "shield_power s1 \<le> 10"
    using assms by (simp_all add: s1_def loop_prologue_fields)
  have "player_row (call_state f e s1) \<le> 3 \<and> render_col (call_state f e s1) \<le> 39 \<and>
        player_col (call_state f e s1) \<le> 39 \<and> shield_power (call_state f e s1) \<le> 10" for f
    using s1 by (cases f) (simp_all add: play_game_bounds state_fn_defs)
  then show ?thesis by (simp add: loop_def Let_def s1_def)
qed

lemma run_bounds:
  assumes "player_row s \<le> 3 \<and> render_col s \<le> 39 \<and> player_col s \<le> 39 \<and> shield_power s \<le> 10"
  shows "player_row (run s es) \<le> 3 \<and> render_col (run s es) \<le> 39 \<and>
         player_col (run s es) \<le> 39 \<and> shield_power (run s es) \<le> 10"
  using assms
proof (induction es arbitrary: s)
  case Nil
  then show ?case by simp
next
  case (Cons e es)
  from loop_bounds[OF Cons.prems] show ?case
    by (simp only: run.simps) (rule Cons.IH)
qed

lemma setup_state_bounds:
  "player_row setup_state \<le> 3 \<and> render_col setup_state \<le> 39 \<and>
   player_col setup_state \<le> 39 \<and> shield_power setup_state \<le> 10"
  by (simp add: setup_state_def)


section \<open>Input decoder\<close>

text \<open>
  C7. Run the sketch from the initial state over any sequence of ticks. On the last tick
  of the sequence, bit \<open>k\<close> of the clicked mask is set exactly when the tick is not the
  first one, the bit was set in the raw mask of the tick before, and it is clear in the
  raw mask of this tick. In particular the clicked mask of the first tick is empty.
\<close>

theorem clicked_buttons_falling_edge:
  "bit (clicked_buttons (run setup_state (es @ [e]))) k \<longleftrightarrow>
     es \<noteq> [] \<and> bit (readButtons (last es)) k \<and> \<not> bit (readButtons e) k"
  by (simp add: run_snoc loop_buttons falling_edge_bit last_buttons_run setup_state_def)

section \<open>Ship position\<close>

lemma move_ship_row_cong:
  assumes "player_row s1 = player_row s0" "clicked_buttons s1 = clicked_buttons s0"
  shows "player_row (move_ship s1) = player_row (move_ship s0)"
  using assms by (simp add: move_ship_def Let_def)

lemma play_game_position:
  "player_row (play_game e s) = player_row (move_ship s)"
  "render_col (play_game e s) =
     (if time s - last_render s \<ge> 250
      then (if render_col s < 39 then render_col s + 1 else 0) else render_col s)"
  "player_col (play_game e s) =
     (if time s - last_render s \<ge> 250
      then (if player_col s < 39 then player_col s + 1 else 0) else player_col s)"
proof -
  define s1 where "s1 = (if time s - last_render s \<ge> 250 then render_frame e s else s)"
  have pg: "play_game e s =
      (if sint (score (move_ship s1)) smod 500 = 0
       then (move_ship s1)\<lparr> state := Fn_end_wave \<rparr> else move_ship s1)"
    by (simp add: play_game_def Let_def s1_def)
  have "player_row (move_ship s1) = player_row (move_ship s)"
    by (rule move_ship_row_cong) (simp_all add: s1_def render_frame_fields)
  then show "player_row (play_game e s) = player_row (move_ship s)"
    by (simp add: pg)
  show "render_col (play_game e s) =
     (if time s - last_render s \<ge> 250
      then (if render_col s < 39 then render_col s + 1 else 0) else render_col s)"
    by (simp add: pg move_ship_fields s1_def render_frame_fields)
  show "player_col (play_game e s) =
     (if time s - last_render s \<ge> 250
      then (if player_col s < 39 then player_col s + 1 else 0) else player_col s)"
    by (simp add: pg move_ship_fields s1_def render_frame_fields)
qed

lemma loop_play_game:
  assumes "state s = Fn_play_game"
  shows "loop e s = play_game e (loop_prologue e s)"
  using assms by (simp add: loop_def Let_def loop_prologue_fields)

text \<open>
  C8. In every state the sketch reaches from its initial state, the ship's row is at most
  3 and the render column and the ship's column are at most 39. On every tick of the play
  state, whether or not a frame is rendered, a click on up lowers the row by one, stopping
  at 0, and then a click on down raises it by one, stopping at 3. On a rendered frame both
  columns advance by one and go from 39 back to 0.
\<close>

theorem ship_position_bounds:
  "unat (player_row (run setup_state es)) \<le> 3 \<and>
   unat (render_col (run setup_state es)) \<le> 39 \<and>
   unat (player_col (run setup_state es)) \<le> 39 \<and>
   (state s = Fn_play_game \<longrightarrow>
      unat (player_row (loop e s)) =
        (let r1 = (if clicked_buttons (loop e s) AND BUTTON_UP \<noteq> 0
                   then unat (player_row s) - 1 else unat (player_row s))
         in if clicked_buttons (loop e s) AND BUTTON_DOWN \<noteq> 0 then min 3 (r1 + 1) else r1)) \<and>
   (state s = Fn_play_game \<and> 250 \<le> millis e - last_render s \<longrightarrow>
      unat (render_col (loop e s)) =
        (if unat (render_col s) < 39 then unat (render_col s) + 1 else 0) \<and>
      unat (player_col (loop e s)) =
        (if unat (player_col s) < 39 then unat (player_col s) + 1 else 0))"
proof -
  have b: "player_row (run setup_state es) \<le> 3 \<and> render_col (run setup_state es) \<le> 39 \<and>
           player_col (run setup_state es) \<le> 39 \<and> shield_power (run setup_state es) \<le> 10"
    by (rule run_bounds [OF setup_state_bounds])
  have row: "unat (player_row (loop e s)) =
        (let r1 = (if clicked_buttons (loop e s) AND BUTTON_UP \<noteq> 0
                   then unat (player_row s) - 1 else unat (player_row s))
         in if clicked_buttons (loop e s) AND BUTTON_DOWN \<noteq> 0 then min 3 (r1 + 1) else r1)"
    if "state s = Fn_play_game"
    by (simp only: loop_play_game [OF that] play_game_position move_ship_row
          play_game_fields loop_prologue_fields)
  have cols: "unat (render_col (loop e s)) =
        (if unat (render_col s) < 39 then unat (render_col s) + 1 else 0) \<and>
      unat (player_col (loop e s)) =
        (if unat (player_col s) < 39 then unat (player_col s) + 1 else 0)"
    if "state s = Fn_play_game" "250 \<le> millis e - last_render s"
  proof -
    have "render_col (loop e s) = (if render_col s < 39 then render_col s + 1 else 0)"
      "player_col (loop e s) = (if player_col s < 39 then player_col s + 1 else 0)"
      using that(2)
      by (simp_all only: loop_play_game [OF that(1)] play_game_position loop_prologue_fields if_True)
    then show ?thesis by (simp only: unat_col_step simp_thms)
  qed
  from b row cols show ?thesis
    by (simp add: word_le_nat_alt)
qed

theorem ship_position_bounds_witness:
  "state (play_example\<lparr> player_row := 2, last_buttons := BUTTON_UP \<rparr>) = Fn_play_game \<and>
   250 \<le> millis frame_input - last_render (play_example\<lparr> player_row := 2, last_buttons := BUTTON_UP \<rparr>) \<and>
   unat (player_row (loop frame_input (play_example\<lparr> player_row := 2, last_buttons := BUTTON_UP \<rparr>))) = 1 \<and>
   unat (render_col (loop frame_input (play_example\<lparr> player_row := 2, last_buttons := BUTTON_UP \<rparr>))) = 17"
  using ship_position_bounds [of "[]" "play_example\<lparr> player_row := 2, last_buttons := BUTTON_UP \<rparr>" frame_input]
  by (simp add: play_example_def frame_input_def loop_buttons BUTTON_UP_def BUTTON_DOWN_def)

section \<open>Score and state transitions\<close>

lemma sint_add_of_nat:
  fixes x :: u32
  assumes "sint x + int n < 2 ^ 31"
  shows "sint (x + of_nat n) = sint x + int n"
proof -
  have "x + of_nat n = word_of_int (sint x + int n)"
    by simp
  then have "sint (x + of_nat n) = signed_take_bit 31 (sint x + int n)"
    by (simp only: sint_sbintrunc') simp
  also have "\<dots> = sint x + int n"
  proof (rule signed_take_bit_int_eq_self)
    have "- (2 ^ 31) \<le> sint x" using sint_ge [of x] by simp
    then show "- (2 ^ 31) \<le> sint x + int n" by simp
    show "sint x + int n < 2 ^ 31" by (rule assms)
  qed
  finally show ?thesis .
qed

lemma play_game_state:
  "state (play_game e s) =
     (if sint (score (play_game e s)) smod 500 = 0 then Fn_end_wave
      else state (if time s - last_render s \<ge> 250 then render_frame e s else s))"
  by (simp add: play_game_def Let_def move_ship_fields)

lemma render_frame_state_cases:
  "state (render_frame e s) = state s \<or> state (render_frame e s) = Fn_game_over"
  by (simp add: render_frame_effect(2))

lemma loop_state_start_game:
  "state (loop e s) = Fn_start_game \<longleftrightarrow>
     state s = Fn_animate_splash_screen \<and> clicked_buttons (loop e s) AND BUTTON_SELECT \<noteq> 0"
proof (cases "state s")
  case Fn_play_game
  have "state (play_game e (loop_prologue e s)) \<noteq> Fn_start_game"
    using render_frame_state_cases [of e "loop_prologue e s"] Fn_play_game
    by (auto simp add: play_game_state loop_prologue_fields)
  then show ?thesis
    using Fn_play_game by (simp add: loop_play_game)
next
  case Fn_animate_splash_screen
  then show ?thesis
    by (simp add: loop_buttons)
       (simp add: loop_def Let_def loop_prologue_fields animate_splash_screen_def)
qed (simp_all add: loop_def Let_def loop_prologue_fields state_fn_defs)

text \<open>
  C4. On a tick of the play state, the next state is end-wave exactly when the score at
  the end of the tick is a multiple of 500 (the C remainder \<^verbatim>\<open>score % 500\<close> is 0). The
  test is the last statement of the tick and reads nothing else, so it also overrides a
  game-over that the collision branch set in the same tick.
\<close>

theorem end_wave_takes_precedence:
  "state s = Fn_play_game \<longrightarrow>
     (state (loop e s) = Fn_end_wave \<longleftrightarrow> sint (score (loop e s)) smod 500 = 0)"
proof
  assume st: "state s = Fn_play_game"
  define s0 where "s0 = loop_prologue e s"
  have s0: "state s0 = Fn_play_game" by (simp add: s0_def loop_prologue_fields st)
  have l: "loop e s = play_game e s0" by (simp add: s0_def loop_play_game st)
  have "state (if time s0 - last_render s0 \<ge> 250 then render_frame e s0 else s0) \<noteq> Fn_end_wave"
    using render_frame_state_cases [of e s0] s0 by auto
  then show "state (loop e s) = Fn_end_wave \<longleftrightarrow> sint (score (loop e s)) smod 500 = 0"
    unfolding l by (subst play_game_state) simp
qed

theorem end_wave_takes_precedence_witness:
  "state (play_example\<lparr> asteroids := (replicate 40 0)[1 := 0x01], shield_power := 0, score := 498 \<rparr>)
     = Fn_play_game \<and>
   state (render_frame frame_input (loop_prologue frame_input
     (play_example\<lparr> asteroids := (replicate 40 0)[1 := 0x01], shield_power := 0, score := 498 \<rparr>)))
     = Fn_game_over \<and>
   sint (score (loop frame_input
     (play_example\<lparr> asteroids := (replicate 40 0)[1 := 0x01], shield_power := 0, score := 498 \<rparr>)))
     smod 500 = 0 \<and>
   state (loop frame_input
     (play_example\<lparr> asteroids := (replicate 40 0)[1 := 0x01], shield_power := 0, score := 498 \<rparr>))
     = Fn_end_wave"
proof -
  define X where
    "X = play_example\<lparr> asteroids := (replicate 40 0)[1 := 0x01], shield_power := 0, score := 498 \<rparr>"
  have st: "state X = Fn_play_game" unfolding X_def by code_simp
  have go: "state (render_frame frame_input (loop_prologue frame_input X)) = Fn_game_over"
    unfolding X_def by code_simp
  have sc: "score (loop frame_input X) = 500"
    unfolding X_def by code_simp
  have m: "sint (score (loop frame_input X)) smod 500 = 0"
    unfolding sc by simp
  from end_wave_takes_precedence [of X frame_input] st m
  have "state (loop frame_input X) = Fn_end_wave" by simp
  with st go m show ?thesis unfolding X_def by simp
qed


section \<open>End of a wave\<close>

lemma loop_end_wave_delay:
  assumes "state s = Fn_end_wave_delay"
  shows "loop e s =
     (if last_state s = Some Fn_end_wave_delay \<and> 3000 \<le> millis e - last_state_change_time s
      then (loop_prologue e s)\<lparr> wave := wave s + 1, state := Fn_begin_wave \<rparr>
      else loop_prologue e s)"
  using assms
  by (simp add: loop_def Let_def loop_prologue_fields loop_prologue_timer end_wave_delay_def)

lemma loop_end_wave:
  assumes "state s = Fn_end_wave"
  shows "loop e s = end_wave (loop_prologue e s)"
  using assms by (simp add: loop_def Let_def loop_prologue_fields)

lemma unat_wave_succ: "unat (w + 1) = (if w = 255 then 0 else unat w + 1)" for w :: u8
proof (cases "w = 255")
  case True
  then show ?thesis by simp
next
  case False
  have "unat w \<noteq> 255"
  proof
    assume "unat w = 255"
    then have "of_nat (unat w) = (of_nat 255 :: u8)" by (simp only:)
    then have "w = 255" by simp
    with False show False ..
  qed
  moreover have "unat w < 256" using unsigned_less [of w, where ?'a = nat] by simp
  ultimately show ?thesis using False by (simp add: unat_word_ariths)
qed

text \<open>
  The wave counter is a \<^verbatim>\<open>uint8_t\<close>: when end-wave-delay completes at wave 255 the
  counter becomes 0, not 256.
\<close>

theorem wave_wraps_at_255:
  "state (play_example\<lparr> state := Fn_end_wave_delay, last_state := Some Fn_end_wave_delay,
                         wave := 255 \<rparr>) = Fn_end_wave_delay \<and>
   3000 \<le> millis frame_input - last_state_change_time
     (play_example\<lparr> state := Fn_end_wave_delay, last_state := Some Fn_end_wave_delay,
                    wave := 255 \<rparr>) \<and>
   unat (wave (play_example\<lparr> state := Fn_end_wave_delay, last_state := Some Fn_end_wave_delay,
                              wave := 255 \<rparr>)) = 255 \<and>
   state (loop frame_input
     (play_example\<lparr> state := Fn_end_wave_delay, last_state := Some Fn_end_wave_delay,
                    wave := 255 \<rparr>)) = Fn_begin_wave \<and>
   unat (wave (loop frame_input
     (play_example\<lparr> state := Fn_end_wave_delay, last_state := Some Fn_end_wave_delay,
                    wave := 255 \<rparr>))) = 0"
  by code_simp

text \<open>
  C5 (amended). A tick in end-wave-delay completes the delay when it is not the first tick
  in that state and at least 3000 ms have passed since the first one; then the wave number
  goes up by exactly 1, except that 255 is followed by 0, and the next state is begin-wave.
  Otherwise wave and state are unchanged. A tick in end-wave adds \<open>shield_power * 10\<close> to
  the score in the 32-bit \<^verbatim>\<open>long\<close>, which is the integer sum whenever that sum is below
  \<open>2 ^ 31\<close>; the banner is drawn after the addition, its last command printing the new
  score, and the next state is end-wave-delay.
\<close>

theorem wave_end_effects:
  "(state s = Fn_end_wave_delay \<longrightarrow>
      (if last_state s = Some Fn_end_wave_delay \<and>
          3000 \<le> millis e - last_state_change_time s
       then unat (wave (loop e s)) = (if wave s = 255 then 0 else unat (wave s) + 1) \<and>
            state (loop e s) = Fn_begin_wave
       else wave (loop e s) = wave s \<and> state (loop e s) = Fn_end_wave_delay)) \<and>
   (state s = Fn_end_wave \<longrightarrow>
      score (loop e s) = score s + of_nat (unat (shield_power s) * 10) \<and>
      (sint (score s) + int (unat (shield_power s) * 10) < 2 ^ 31 \<longrightarrow>
         sint (score (loop e s)) = sint (score s) + int (unat (shield_power s) * 10)) \<and>
      last (lcd (loop e s)) = PrintNum (sint (score (loop e s))) \<and>
      state (loop e s) = Fn_end_wave_delay)"
proof (intro conjI impI)
  assume st: "state s = Fn_end_wave_delay"
  show "if last_state s = Some Fn_end_wave_delay \<and>
          3000 \<le> millis e - last_state_change_time s
       then unat (wave (loop e s)) = (if wave s = 255 then 0 else unat (wave s) + 1) \<and>
            state (loop e s) = Fn_begin_wave
       else wave (loop e s) = wave s \<and> state (loop e s) = Fn_end_wave_delay"
    by (simp add: loop_end_wave_delay [OF st] loop_prologue_fields st unat_wave_succ)
next
  assume st: "state s = Fn_end_wave"
  show sc: "score (loop e s) = score s + of_nat (unat (shield_power s) * 10)"
    using st by (simp add: loop_score)
  show "sint (score (loop e s)) = sint (score s) + int (unat (shield_power s) * 10)"
    if "sint (score s) + int (unat (shield_power s) * 10) < 2 ^ 31"
    unfolding sc using that by (rule sint_add_of_nat)
  show "last (lcd (loop e s)) = PrintNum (sint (score (loop e s)))"
    by (simp add: loop_end_wave [OF st] end_wave_def draw_game_screen_def)
  show "state (loop e s) = Fn_end_wave_delay"
    by (simp add: loop_end_wave [OF st] end_wave_def draw_game_screen_def)
qed

theorem wave_end_effects_witness:
  "state (play_example\<lparr> state := Fn_end_wave_delay, last_state := Some Fn_end_wave_delay \<rparr>)
     = Fn_end_wave_delay \<and>
   unat (wave (loop frame_input
     (play_example\<lparr> state := Fn_end_wave_delay, last_state := Some Fn_end_wave_delay \<rparr>))) = 2 \<and>
   state (loop frame_input
     (play_example\<lparr> state := Fn_end_wave_delay, last_state := Some Fn_end_wave_delay \<rparr>))
     = Fn_begin_wave \<and>
   state (play_example\<lparr> state := Fn_end_wave, score := 500, shield_power := 7 \<rparr>) = Fn_end_wave \<and>
   sint (score (play_example\<lparr> state := Fn_end_wave, score := 500, shield_power := 7 \<rparr>)) +
     int (unat (shield_power (play_example\<lparr> state := Fn_end_wave, score := 500, shield_power := 7 \<rparr>))
          * 10) < 2 ^ 31 \<and>
   sint (score (loop frame_input
     (play_example\<lparr> state := Fn_end_wave, score := 500, shield_power := 7 \<rparr>))) = 570"
proof -
  define X where
    "X = play_example\<lparr> state := Fn_end_wave_delay, last_state := Some Fn_end_wave_delay \<rparr>"
  define Y where "Y = play_example\<lparr> state := Fn_end_wave, score := 500, shield_power := 7 \<rparr>"
  have x: "state X = Fn_end_wave_delay" "last_state X = Some Fn_end_wave_delay"
    "3000 \<le> millis frame_input - last_state_change_time X" "wave X = 1"
    unfolding X_def by code_simp+
  have y: "state Y = Fn_end_wave" "score Y = 500" "shield_power Y = 7"
    unfolding Y_def by code_simp+
  have y2: "sint (score Y) + int (unat (shield_power Y) * 10) < 2 ^ 31"
    by (simp add: y)
  from wave_end_effects [of X frame_input] x
  have 1: "unat (wave (loop frame_input X)) = 2 \<and> state (loop frame_input X) = Fn_begin_wave"
    by simp
  from wave_end_effects [of Y frame_input] y(1) y2
  have "sint (score (loop frame_input Y)) = sint (score Y) + int (unat (shield_power Y) * 10)"
    by blast
  then have 2: "sint (score (loop frame_input Y)) = 570" by (simp add: y)
  from x(1) y(1) y2 1 2 show ?thesis unfolding X_def Y_def by blast
qed

section \<open>Score\<close>

lemma loop_score_adds:
  assumes "state s \<noteq> Fn_start_game"
  shows "\<exists>n \<le> 2550. score (loop e s) = score s + of_nat n"
proof -
  have zero: "\<exists>n \<le> 2550. score s = score s + of_nat n" (is "\<exists>n \<le> _. ?P n")
  proof (intro exI conjI)
    show "(0 :: nat) \<le> 2550" by simp
    show "?P 0" by simp
  qed
  have two: "\<exists>n \<le> 2550. score s + 2 = score s + of_nat n" (is "\<exists>n \<le> _. ?P n")
  proof (intro exI conjI)
    show "(2 :: nat) \<le> 2550" by simp
    show "?P 2" by simp
  qed
  have bonus: "\<exists>n \<le> 2550. score s + of_nat (unat (shield_power s) * 10) = score s + of_nat n"
    (is "\<exists>n \<le> _. ?P n")
  proof (intro exI conjI)
    show "unat (shield_power s) * 10 \<le> 2550"
      using unsigned_less [of "shield_power s", where ?'a = nat] by simp
    show "?P (unat (shield_power s) * 10)" ..
  qed
  from assms zero two bonus show ?thesis
    by (cases "state s") (simp_all only: loop_score state_fn.case split: if_split, simp_all)
qed

text \<open>
  The tick of start-game sets the score to 0: entered with a score of 100 left from the
  game before, it lowers the score.
\<close>

theorem start_game_lowers_score:
  "state (play_example\<lparr> state := Fn_start_game, score := 100 \<rparr>) = Fn_start_game \<and>
   sint (score (play_example\<lparr> state := Fn_start_game, score := 100 \<rparr>)) = 100 \<and>
   sint (score (loop frame_input (play_example\<lparr> state := Fn_start_game, score := 100 \<rparr>))) = 0"
  by code_simp

text \<open>
  C6 (amended). Across a tick of any state other than start-game the score does not
  decrease, as long as the signed 32-bit score is below \<open>2 ^ 31 - 2550\<close> (no tick adds more
  than 2550, and overflow of a \<^verbatim>\<open>long\<close> is undefined in C). On a tick of the play state
  that renders a frame the score goes up by exactly 2, whatever the two draws are; on a
  tick of the play state that renders no frame it is unchanged.
\<close>

theorem score_monotone_except_start_game:
  "(state s \<noteq> Fn_start_game \<and> sint (score s) < 2 ^ 31 - 2550 \<longrightarrow>
      sint (score s) \<le> sint (score (loop e s))) \<and>
   (state s = Fn_play_game \<and> 250 \<le> millis e - last_render s \<longrightarrow>
      score (loop e s) = score s + 2 \<and>
      (sint (score s) < 2 ^ 31 - 2 \<longrightarrow> sint (score (loop e s)) = sint (score s) + 2)) \<and>
   (state s = Fn_play_game \<and> \<not> 250 \<le> millis e - last_render s \<longrightarrow>
      score (loop e s) = score s)"
proof (intro conjI impI)
  assume a: "state s \<noteq> Fn_start_game \<and> sint (score s) < 2 ^ 31 - 2550"
  have add: "sint (score s) \<le> sint (score s + of_nat n)" if "n \<le> 2550" for n
  proof -
    from a that have "sint (score s) + int n < 2 ^ 31" by simp
    then have "sint (score s + of_nat n) = sint (score s) + int n"
      by (rule sint_add_of_nat)
    then show ?thesis by simp
  qed
  from a loop_score_adds [of s e] obtain n
    where "n \<le> 2550" "score (loop e s) = score s + of_nat n" by blast
  then show "sint (score s) \<le> sint (score (loop e s))"
    using add [of n] by simp
next
  assume a: "state s = Fn_play_game \<and> 250 \<le> millis e - last_render s"
  then show sc: "score (loop e s) = score s + 2"
    by (simp add: loop_score)
  show "sint (score (loop e s)) = sint (score s) + 2" if "sint (score s) < 2 ^ 31 - 2"
  proof -
    from that have "sint (score s) + int 2 < 2 ^ 31" by simp
    then have "sint (score s + of_nat 2) = sint (score s) + int 2"
      by (rule sint_add_of_nat)
    then show ?thesis unfolding sc by simp
  qed
next
  assume "state s = Fn_play_game \<and> \<not> 250 \<le> millis e - last_render s"
  then show "score (loop e s) = score s"
    by (simp add: loop_score)
qed

theorem score_monotone_except_start_game_witness:
  "state play_example \<noteq> Fn_start_game \<and>
   sint (score play_example) < 2 ^ 31 - 2550 \<and>
   state play_example = Fn_play_game \<and>
   250 \<le> millis frame_input - last_render play_example \<and>
   sint (score play_example) = 80 \<and>
   sint (score (loop frame_input play_example)) = 82 \<and>
   \<not> 250 \<le> millis (frame_input\<lparr> millis := 13100 \<rparr>) - last_render play_example \<and>
   sint (score (loop (frame_input\<lparr> millis := 13100 \<rparr>) play_example)) = 80"
proof -
  have h: "state play_example = Fn_play_game"
    "250 \<le> millis frame_input - last_render play_example"
    "score play_example = 80"
    "\<not> 250 \<le> millis (frame_input\<lparr> millis := 13100 \<rparr>) - last_render play_example"
    by code_simp+
  have lt: "sint (score play_example) < 2 ^ 31 - 2" "sint (score play_example) < 2 ^ 31 - 2550"
    by (simp_all add: h)
  from score_monotone_except_start_game [of play_example frame_input] h(1,2) lt
  have 1: "sint (score (loop frame_input play_example)) = sint (score play_example) + 2"
    by blast
  from score_monotone_except_start_game [of play_example "frame_input\<lparr> millis := 13100 \<rparr>"]
    h(1,4)
  have 2: "score (loop (frame_input\<lparr> millis := 13100 \<rparr>) play_example) = score play_example"
    by blast
  from h lt 1 2 show ?thesis by simp
qed

text \<open>
  From a state of game-over, game-over-delay, splash or splash-animate, a tick leads to
  one of these four states or to start-game, and keeps the score.
\<close>

lemma loop_idle_states:
  assumes "state s \<in> {Fn_game_over, Fn_game_over_delay,
                       Fn_begin_splash_screen, Fn_animate_splash_screen}"
  shows "score (loop e s) = score s"
    and "state (loop e s) \<in> {Fn_game_over, Fn_game_over_delay,
                               Fn_begin_splash_screen, Fn_animate_splash_screen, Fn_start_game}"
proof -
  from assms show "score (loop e s) = score s"
    by (auto simp add: loop_score)
  from assms show "state (loop e s) \<in> {Fn_game_over, Fn_game_over_delay,
                               Fn_begin_splash_screen, Fn_animate_splash_screen, Fn_start_game}"
    by (elim insertE emptyE)
       (simp_all add: loop_def Let_def loop_prologue_fields state_fn_defs)
qed

lemma run_idle_states:
  assumes "state s \<in> {Fn_game_over, Fn_game_over_delay,
                       Fn_begin_splash_screen, Fn_animate_splash_screen}"
    and "\<forall>k \<le> length es. state (run s (take k es)) \<noteq> Fn_start_game"
  shows "score (run s es) = score s \<and>
         state (run s es) \<in> {Fn_game_over, Fn_game_over_delay,
                               Fn_begin_splash_screen, Fn_animate_splash_screen}"
  using assms(2)
proof (induction es rule: rev_induct)
  case Nil
  with assms(1) show ?case by simp
next
  case (snoc e es)
  have "\<forall>k \<le> length es. state (run s (take k es)) \<noteq> Fn_start_game"
  proof (intro allI impI)
    fix k assume k: "k \<le> length es"
    then have "k \<le> length (es @ [e])" by simp
    with snoc.prems have "state (run s (take k (es @ [e]))) \<noteq> Fn_start_game" by blast
    moreover from k have "take k (es @ [e]) = take k es" by simp
    ultimately show "state (run s (take k es)) \<noteq> Fn_start_game" by simp
  qed
  from snoc.IH [OF this] have ih: "score (run s es) = score s"
    "state (run s es) \<in> {Fn_game_over, Fn_game_over_delay,
                           Fn_begin_splash_screen, Fn_animate_splash_screen}"
    by simp_all
  from snoc.prems have "state (run s (take (length (es @ [e])) (es @ [e]))) \<noteq> Fn_start_game"
    by blast
  then have ne: "state (loop e (run s es)) \<noteq> Fn_start_game"
    by (simp add: run_snoc)
  from loop_idle_states [OF ih(2), of e] ih(1) ne show ?case
    by (simp add: run_snoc)
qed


text \<open>
  C10. A tick of game-over, game-over-delay, splash or splash-animate leaves the score
  unchanged, and so does any run of ticks from such a state during which start-game is
  not entered. The tick of start-game sets the score to 0; the tick of any other state
  only adds to it (0, 2 or \<open>shield_power * 10\<close>). Start-game is the next state exactly
  when the current state is splash-animate and this tick's clicked mask has the select
  bit.
\<close>

theorem score_kept_until_start_game:
  "(state s \<in> {Fn_game_over, Fn_game_over_delay,
                Fn_begin_splash_screen, Fn_animate_splash_screen} \<longrightarrow>
      score (loop e s) = score s) \<and>
   (state s \<in> {Fn_game_over, Fn_game_over_delay,
                Fn_begin_splash_screen, Fn_animate_splash_screen} \<and>
    (\<forall>k \<le> length es. state (run s (take k es)) \<noteq> Fn_start_game) \<longrightarrow>
      score (run s es) = score s) \<and>
   (state s = Fn_start_game \<longrightarrow> score (loop e s) = 0) \<and>
   (state s \<noteq> Fn_start_game \<longrightarrow> (\<exists>n \<le> 2550. score (loop e s) = score s + of_nat n)) \<and>
   (state (loop e s) = Fn_start_game \<longleftrightarrow>
      state s = Fn_animate_splash_screen \<and>
      clicked_buttons (loop e s) AND BUTTON_SELECT \<noteq> 0)"
proof (intro conjI impI)
  show "score (loop e s) = score s"
    if "state s \<in> {Fn_game_over, Fn_game_over_delay,
                    Fn_begin_splash_screen, Fn_animate_splash_screen}"
    using that by (rule loop_idle_states(1))
  show "score (run s es) = score s"
    if "state s \<in> {Fn_game_over, Fn_game_over_delay,
                    Fn_begin_splash_screen, Fn_animate_splash_screen} \<and>
        (\<forall>k \<le> length es. state (run s (take k es)) \<noteq> Fn_start_game)"
    using run_idle_states [of s es] that by blast
  show "score (loop e s) = 0" if "state s = Fn_start_game"
    using that by (simp add: loop_score)
  show "\<exists>n \<le> 2550. score (loop e s) = score s + of_nat n" if "state s \<noteq> Fn_start_game"
    using that by (rule loop_score_adds)
  show "state (loop e s) = Fn_start_game \<longleftrightarrow>
      state s = Fn_animate_splash_screen \<and>
      clicked_buttons (loop e s) AND BUTTON_SELECT \<noteq> 0"
    by (rule loop_state_start_game)
qed

theorem score_kept_until_start_game_witness:
  "state (play_example\<lparr> state := Fn_game_over, score := 124 \<rparr>) = Fn_game_over \<and>
   state (run (play_example\<lparr> state := Fn_game_over, score := 124 \<rparr>)
      [frame_input, frame_input\<lparr> millis := 18250 \<rparr>, frame_input\<lparr> millis := 23250 \<rparr>])
     = Fn_begin_splash_screen \<and>
   sint (score (run (play_example\<lparr> state := Fn_game_over, score := 124 \<rparr>)
      [frame_input, frame_input\<lparr> millis := 18250 \<rparr>, frame_input\<lparr> millis := 23250 \<rparr>]))
     = 124 \<and>
   sint (score (loop frame_input (play_example\<lparr> state := Fn_game_over, score := 124 \<rparr>))) = 124 \<and>
   state (play_example\<lparr> state := Fn_start_game, score := 124 \<rparr>) = Fn_start_game \<and>
   sint (score (loop frame_input (play_example\<lparr> state := Fn_start_game, score := 124 \<rparr>))) = 0"
proof -
  define X where "X = play_example\<lparr> state := Fn_game_over, score := 124 \<rparr>"
  define Y where "Y = play_example\<lparr> state := Fn_start_game, score := 124 \<rparr>"
  define es where
    "es = [frame_input, frame_input\<lparr> millis := 18250 \<rparr>, frame_input\<lparr> millis := 23250 \<rparr>]"
  have st: "state X = Fn_game_over" unfolding X_def by code_simp
  have sc: "score X = 124" unfolding X_def by code_simp
  have fin: "state (run X es) = Fn_begin_splash_screen" unfolding X_def es_def by code_simp
  have p: "state (run X (take 0 es)) \<noteq> Fn_start_game"
    "state (run X (take 1 es)) \<noteq> Fn_start_game"
    "state (run X (take 2 es)) \<noteq> Fn_start_game"
    "state (run X (take 3 es)) \<noteq> Fn_start_game"
    unfolding X_def es_def by code_simp+
  have len: "length es = 3" by (simp add: es_def)
  have "k = 0 \<or> k = 1 \<or> k = 2 \<or> k = 3" if "k \<le> 3" for k :: nat
    using that by arith
  with p have "\<forall>k \<le> length es. state (run X (take k es)) \<noteq> Fn_start_game"
    unfolding len by blast
  with score_kept_until_start_game [of X frame_input es] st
  have "score (run X es) = score X" "score (loop frame_input X) = score X" by simp_all
  then have 1: "sint (score (run X es)) = 124" "sint (score (loop frame_input X)) = 124"
    by (simp_all add: sc)
  have sty: "state Y = Fn_start_game" unfolding Y_def by code_simp
  with score_kept_until_start_game [of Y frame_input "[]"]
  have "score (loop frame_input Y) = 0" by blast
  then have 2: "sint (score (loop frame_input Y)) = 0" by simp
  from st fin 1 sty 2 show ?thesis unfolding X_def Y_def es_def by simp
qed

section \<open>Obstacle generation\<close>








section \<open>Collision\<close>

lemma bottom_mask_even:
  fixes r cell :: u8
  assumes "r mod 2 = 0"
  shows "(cell AND push_bit (unat r div 2 * 2) 0x02 \<noteq> 0) = bit cell (Suc (unat r))"
proof -
  have "unat (r mod 2) = unat r mod 2" by (simp add: unat_mod)
  with assms have "unat r mod 2 = 0" by simp
  then have "unat r div 2 * 2 = unat r" by presburger
  moreover have "push_bit n (2 :: u8) = 2 ^ Suc n" for n
    by (simp add: push_bit_eq_mult)
  ultimately show ?thesis
    by (simp add: and_exp_eq_0_iff_not_bit del: power_Suc)
qed

lemma top_mask_odd:
  fixes r cell :: u8
  assumes "r mod 2 \<noteq> 0"
  shows "(cell AND push_bit (unat r div 2 * 2) 0x01 \<noteq> 0) = bit cell (unat r - 1)"
proof -
  have "unat r mod 2 \<noteq> 0"
  proof
    assume "unat r mod 2 = 0"
    then have "unat (r mod 2) = 0" by (simp add: unat_mod)
    then have "r mod 2 = 0" by (simp only: unat_eq_0)
    with assms show False by simp
  qed
  then have "unat r div 2 * 2 = unat r - 1" by presburger
  then show ?thesis
    by (simp add: and_exp_eq_0_iff_not_bit)
qed

lemma word_even_iff: "r mod 2 = 0 \<longleftrightarrow> unat r mod 2 = 0" for r :: u8
proof
  assume "r mod 2 = 0"
  then have "unat (r mod 2) = 0" by simp
  then show "unat r mod 2 = 0" by (simp add: unat_mod)
next
  assume "unat r mod 2 = 0"
  then have "unat (r mod 2) = 0" by (simp add: unat_mod)
  then show "r mod 2 = 0" by (simp only: unat_eq_0)
qed

text \<open>
  What \<open>draw_ship\<close> sends to the display: the cursor, the ship's glyph, and the danger
  backlight when the collision test fires. \<open>own\<close> is the cell's bit for the ship's
  half-row, \<open>opp\<close> the bit for the other half of the same character row.
\<close>

lemma draw_ship_lcd:
  fixes s :: game
  defines "c \<equiv> (if player_col s < 39 then player_col s + 1 else 0)"
  defines "r \<equiv> unat (player_row s)"
  defines "own \<equiv> bit (asteroids s ! unat c) (2 * (r div 2) + r mod 2)"
  defines "opp \<equiv> bit (asteroids s ! unat c) (2 * (r div 2) + (1 - r mod 2))"
  shows "lcd (draw_ship s) =
     lcd s @
     [SetCursor c (player_row s div 2),
      WriteGlyph
        (if r mod 2 = 0
         then (if opp then TOP_SHIP_BOTTOM_ASTEROID_SPRITE_IDX else TOP_SHIP_SPRITE_IDX)
         else (if opp then BOTTOM_SHIP_TOP_ASTEROID_SPRITE_IDX else BOTTOM_SHIP_SPRITE_IDX))] @
     (if own then [SetBacklight RED] else [])"
proof (cases "player_row s mod 2 = 0")
  case True
  then have ev: "r mod 2 = 0" by (simp add: r_def word_even_iff)
  then have idx: "2 * (r div 2) + r mod 2 = r" "2 * (r div 2) + (1 - r mod 2) = Suc r"
    by presburger+
  show ?thesis
    unfolding own_def opp_def idx using True ev
    by (simp add: draw_ship_def Let_def lcd_call_def collision_effect
          top_mask_even bottom_mask_even c_def r_def del: push_bit_of_1)
next
  case False
  then have od: "r mod 2 \<noteq> 0" by (simp add: r_def word_even_iff)
  then have idx: "2 * (r div 2) + r mod 2 = r" "2 * (r div 2) + (1 - r mod 2) = r - 1"
    by presburger+
  show ?thesis
    unfolding own_def opp_def idx using False od
    by (simp add: draw_ship_def Let_def lcd_call_def collision_effect
          top_mask_odd bottom_mask_odd c_def r_def del: push_bit_of_1)
qed


lemma render_frame_lcd:
  fixes s :: game and e :: tick_input
  defines "s' \<equiv> render_frame e s"
  defines "r \<equiv> unat (player_row s)"
  defines "own \<equiv> bit (asteroids s' ! unat (player_col s')) (2 * (r div 2) + r mod 2)"
  defines "opp \<equiv> bit (asteroids s' ! unat (player_col s')) (2 * (r div 2) + (1 - r mod 2))"
  shows "\<exists>pre. lcd s' =
     pre @
     [ScrollDisplayLeft,
      SetCursor (player_col s') (player_row s div 2),
      WriteGlyph
        (if r mod 2 = 0
         then (if opp then TOP_SHIP_BOTTOM_ASTEROID_SPRITE_IDX else TOP_SHIP_SPRITE_IDX)
         else (if opp then BOTTOM_SHIP_TOP_ASTEROID_SPRITE_IDX else BOTTOM_SHIP_SPRITE_IDX))] @
     (if own then [SetBacklight RED] else [])"
proof -
  define s5 where "s5 =
    generate_row 1 (rnd1 e) (generate_row 0 (rnd0 e)
      (((lcd_call (SetBacklight (if shield_power s > 6 then BLUE
                                 else if shield_power s > 3 then YELLOW else RED)) s)
        \<lparr> render_col := (if render_col s < 39 then render_col s + 1 else 0) \<rparr>)
        \<lparr> asteroids := (asteroids s)
            [unat (if render_col s < 39 then render_col s + 1 else 0) := 0] \<rparr>))"
  define s6 where "s6 = lcd_call ScrollDisplayLeft s5"
  have rf: "s' = (draw_ship s6)\<lparr> last_render := time (draw_ship s6) \<rparr>"
    by (simp add: s'_def render_frame_def Let_def s6_def s5_def lcd_call_def)
  have pre: "player_row s6 = player_row s" "lcd s6 = lcd s5 @ [ScrollDisplayLeft]"
    by (simp_all add: s6_def s5_def lcd_call_def generate_row_fields)
  have post: "asteroids s' = asteroids s6" "lcd s' = lcd (draw_ship s6)"
    "player_col s' = (if player_col s6 < 39 then player_col s6 + 1 else 0)"
    by (simp_all add: rf draw_ship_fields)
  show ?thesis
    unfolding own_def opp_def r_def post(1,2) draw_ship_lcd [of s6] pre
    by (simp add: post(3))
qed

lemma loop_play_frame:
  assumes "state s = Fn_play_game" "250 \<le> millis e - last_render s"
  shows "asteroids (loop e s) = asteroids (render_frame e (loop_prologue e s))"
    and "player_col (loop e s) = player_col (render_frame e (loop_prologue e s))"
    and "lcd (loop e s) = lcd (render_frame e (loop_prologue e s))"
    and "shield_power (loop e s) = shield_power (render_frame e (loop_prologue e s))"
    and "state (loop e s) =
           (if sint (score (loop e s)) smod 500 = 0 then Fn_end_wave
            else state (render_frame e (loop_prologue e s)))"
proof -
  define s0 where "s0 = loop_prologue e s"
  have g: "250 \<le> time s0 - last_render s0"
    using assms(2) by (simp add: s0_def loop_prologue_fields)
  have l: "loop e s = play_game e s0"
    using assms(1) by (simp add: s0_def loop_play_game)
  have pg: "play_game e s0 =
      (if sint (score (move_ship (render_frame e s0))) smod 500 = 0
       then (move_ship (render_frame e s0))\<lparr> state := Fn_end_wave \<rparr>
       else move_ship (render_frame e s0))"
    using g by (simp add: play_game_def Let_def)
  show "asteroids (loop e s) = asteroids (render_frame e (loop_prologue e s))"
    "player_col (loop e s) = player_col (render_frame e (loop_prologue e s))"
    "lcd (loop e s) = lcd (render_frame e (loop_prologue e s))"
    "shield_power (loop e s) = shield_power (render_frame e (loop_prologue e s))"
    unfolding l pg s0_def [symmetric] by (simp_all add: move_ship_fields)
  show "state (loop e s) =
           (if sint (score (loop e s)) smod 500 = 0 then Fn_end_wave
            else state (render_frame e (loop_prologue e s)))"
    unfolding l s0_def [symmetric] using g by (simp add: play_game_state)
qed


text \<open>
  A whole tick of the play state that renders a frame, in terms of the state before the
  tick. \<open>hit\<close> is the collision test of the frame: the ship's cell, read after the
  generation step, at the bit of the half-row the ship was on when the frame was drawn.
\<close>

lemma loop_frame_effect:
  fixes s :: game and e :: tick_input
  assumes "state s = Fn_play_game" "250 \<le> millis e - last_render s"
  defines "s' \<equiv> loop e s"
  defines "hit \<equiv> bit (asteroids s' ! unat (player_col s')) (unat (player_row s))"
  shows "shield_power s' =
           (if hit \<and> shield_power s \<noteq> 0 then shield_power s - 1 else shield_power s)"
    and "state s' =
           (if sint (score s') smod 500 = 0 then Fn_end_wave
            else if hit \<and> shield_power s = 0 then Fn_game_over else Fn_play_game)"
    and "backlight b (lcd s') =
           (if hit then Some RED
            else Some (if shield_power s > 6 then BLUE
                       else if shield_power s > 3 then YELLOW else RED))"
proof -
  define f where "f = render_frame e (loop_prologue e s)"
  note lp = loop_play_frame [OF assms(1,2), folded f_def s'_def]
  have row: "player_row f = player_row s"
    by (simp add: f_def render_frame_fields loop_prologue_fields)
  have h: "hit = bit (asteroids f ! unat (player_col f)) (unat (player_row f))"
    by (simp only: hit_def lp row)
  show "shield_power s' =
           (if hit \<and> shield_power s \<noteq> 0 then shield_power s - 1 else shield_power s)"
    unfolding lp h f_def by (simp add: render_frame_effect(1) loop_prologue_fields)
  show "state s' =
           (if sint (score s') smod 500 = 0 then Fn_end_wave
            else if hit \<and> shield_power s = 0 then Fn_game_over else Fn_play_game)"
    unfolding lp(5) h f_def
    by (simp add: render_frame_effect(2) loop_prologue_fields assms(1))
  show "backlight b (lcd s') =
           (if hit then Some RED
            else Some (if shield_power s > 6 then BLUE
                       else if shield_power s > 3 then YELLOW else RED))"
    unfolding lp h f_def by (simp add: render_frame_effect(3) loop_prologue_fields)
qed

lemma loop_frame_lcd:
  fixes s :: game and e :: tick_input
  assumes "state s = Fn_play_game" "250 \<le> millis e - last_render s"
  defines "s' \<equiv> loop e s"
  defines "r \<equiv> unat (player_row s)"
  defines "own \<equiv> bit (asteroids s' ! unat (player_col s')) (2 * (r div 2) + r mod 2)"
  defines "opp \<equiv> bit (asteroids s' ! unat (player_col s')) (2 * (r div 2) + (1 - r mod 2))"
  shows "\<exists>pre. lcd s' =
     pre @
     [ScrollDisplayLeft,
      SetCursor (player_col s') (player_row s div 2),
      WriteGlyph
        (if r mod 2 = 0
         then (if opp then TOP_SHIP_BOTTOM_ASTEROID_SPRITE_IDX else TOP_SHIP_SPRITE_IDX)
         else (if opp then BOTTOM_SHIP_TOP_ASTEROID_SPRITE_IDX else BOTTOM_SHIP_SPRITE_IDX))] @
     (if own then [SetBacklight RED] else [])"
proof -
  define f where "f = render_frame e (loop_prologue e s)"
  note lp = loop_play_frame [OF assms(1,2), folded f_def s'_def]
  have row: "player_row (loop_prologue e s) = player_row s"
    by (simp add: loop_prologue_fields)
  show ?thesis
    unfolding own_def opp_def r_def lp
    using render_frame_lcd [of e "loop_prologue e s"]
    unfolding row f_def [symmetric] .
qed


text \<open>
  A playfield cell keeps four bits, one per half-row of its column: bit \<open>2 * c\<close> is an
  obstacle in the top half of character row \<open>c\<close>, bit \<open>2 * c + 1\<close> one in its bottom
  half. A ship on half-row \<open>r\<close> is in character row \<open>r div 2\<close>, in the top half when
  \<open>r\<close> is even.

  Two ticks of the play state that render a frame. In the first the ship is on half-row
  0 and its cell has an obstacle in the bottom half of character row 0 only, the opposite
  half: no hit is flagged, shield power and state are unchanged and the backlight stays
  calm. In the second the ship's own half holds an obstacle and shield power is 0, but
  the frame brings the score from 498 to 500: the state after the tick is end-wave, not
  game-over.
\<close>

theorem opposite_half_no_hit_own_half_end_wave:
  "state play_example = Fn_play_game \<and>
   player_row play_example = 0 \<and>
   bit (asteroids (loop frame_input play_example) !
        unat (player_col (loop frame_input play_example))) 1 \<and>
   \<not> bit (asteroids (loop frame_input play_example) !
          unat (player_col (loop frame_input play_example))) 0 \<and>
   shield_power (loop frame_input play_example) = shield_power play_example \<and>
   state (loop frame_input play_example) = Fn_play_game \<and>
   backlight None (lcd (loop frame_input play_example)) = Some BLUE \<and>
   state (play_example\<lparr> asteroids := (replicate 40 0)[1 := 0x01], shield_power := 0,
                         score := 498 \<rparr>) = Fn_play_game \<and>
   shield_power (play_example\<lparr> asteroids := (replicate 40 0)[1 := 0x01], shield_power := 0,
                                score := 498 \<rparr>) = 0 \<and>
   bit (asteroids (loop frame_input
          (play_example\<lparr> asteroids := (replicate 40 0)[1 := 0x01], shield_power := 0,
                         score := 498 \<rparr>)) !
        unat (player_col (loop frame_input
          (play_example\<lparr> asteroids := (replicate 40 0)[1 := 0x01], shield_power := 0,
                         score := 498 \<rparr>)))) 0 \<and>
   state (loop frame_input
     (play_example\<lparr> asteroids := (replicate 40 0)[1 := 0x01], shield_power := 0,
                    score := 498 \<rparr>)) = Fn_end_wave"
  by code_simp

text \<open>
  C1 (amended). On a tick of the play state that renders a frame, with the ship on
  half-row \<open>r\<close>, a hit is flagged exactly when the ship's current cell has the bit of the
  half-row the ship occupies, bit \<open>2 * (r div 2) + r mod 2\<close>. The glyph drawn for the
  ship depends on the bit of the opposite half only. On a hit the danger backlight is the
  last command of the frame; then, if shield power was 0, it stays 0 and the next state is
  game-over, unless the score at the end of the tick is a multiple of 500, when the next
  state is end-wave; otherwise shield power goes down by one. With no hit the frame ends
  on the ship's glyph, shield power is unchanged, the backlight is the colour chosen from
  the shield thresholds, and the state stays play (or end-wave on a multiple of 500).
\<close>

theorem play_frame_collision:
  assumes "state s = Fn_play_game"
    and "250 \<le> millis e - last_render s"
    and "player_row s \<le> 3"
  shows
    "let s' = loop e s;
         r = unat (player_row s);
         cell = asteroids s' ! unat (player_col s');
         own = bit cell (2 * (r div 2) + r mod 2);
         opp = bit cell (2 * (r div 2) + (1 - r mod 2));
         glyph = (if r mod 2 = 0
                  then (if opp then TOP_SHIP_BOTTOM_ASTEROID_SPRITE_IDX else TOP_SHIP_SPRITE_IDX)
                  else (if opp then BOTTOM_SHIP_TOP_ASTEROID_SPRITE_IDX
                        else BOTTOM_SHIP_SPRITE_IDX));
         wave_over = (sint (score s') smod 500 = 0)
     in (\<exists>pre. lcd s' =
           pre @ [ScrollDisplayLeft, SetCursor (player_col s') (player_row s div 2),
                  WriteGlyph glyph] @
           (if own then [SetBacklight RED] else [])) \<and>
        (own \<longrightarrow>
           backlight b (lcd s') = Some RED \<and>
           (if shield_power s = 0
            then shield_power s' = 0 \<and>
                 state s' = (if wave_over then Fn_end_wave else Fn_game_over)
            else unat (shield_power s') = unat (shield_power s) - 1 \<and>
                 state s' = (if wave_over then Fn_end_wave else Fn_play_game))) \<and>
        (\<not> own \<longrightarrow>
           shield_power s' = shield_power s \<and>
           state s' = (if wave_over then Fn_end_wave else Fn_play_game) \<and>
           backlight b (lcd s') =
             Some (if shield_power s > 6 then BLUE
                   else if shield_power s > 3 then YELLOW else RED))"
proof -
  have r: "2 * (n div 2) + n mod 2 = n" for n :: nat by simp
  note fx = loop_frame_effect [OF assms(1,2)]
  note tr = loop_frame_lcd [OF assms(1,2)]
  show ?thesis
    unfolding Let_def
    apply (intro conjI)
      apply (rule tr)
     apply (simp add: r fx unat_minus_one)
    apply (simp add: r fx)
    done
qed

theorem play_frame_collision_witness:
  "state (play_example\<lparr> asteroids := (replicate 40 0)[1 := 0x01] \<rparr>) = Fn_play_game \<and>
   250 \<le> millis frame_input -
     last_render (play_example\<lparr> asteroids := (replicate 40 0)[1 := 0x01] \<rparr>) \<and>
   player_row (play_example\<lparr> asteroids := (replicate 40 0)[1 := 0x01] \<rparr>) \<le> 3 \<and>
   bit (asteroids (loop frame_input (play_example\<lparr> asteroids := (replicate 40 0)[1 := 0x01] \<rparr>)) !
        unat (player_col (loop frame_input
          (play_example\<lparr> asteroids := (replicate 40 0)[1 := 0x01] \<rparr>)))) 0 \<and>
   backlight None (lcd (loop frame_input
      (play_example\<lparr> asteroids := (replicate 40 0)[1 := 0x01] \<rparr>))) = Some RED \<and>
   unat (shield_power (loop frame_input
      (play_example\<lparr> asteroids := (replicate 40 0)[1 := 0x01] \<rparr>))) = 9 \<and>
   state (loop frame_input
      (play_example\<lparr> asteroids := (replicate 40 0)[1 := 0x01] \<rparr>)) = Fn_play_game \<and>
   state play_example = Fn_play_game \<and>
   250 \<le> millis frame_input - last_render play_example \<and>
   player_row play_example \<le> 3 \<and>
   \<not> bit (asteroids (loop frame_input play_example) !
          unat (player_col (loop frame_input play_example))) 0 \<and>
   unat (shield_power (loop frame_input play_example)) = 10 \<and>
   last (lcd (loop frame_input play_example)) = WriteGlyph TOP_SHIP_BOTTOM_ASTEROID_SPRITE_IDX"
proof -
  define X where "X = play_example\<lparr> asteroids := (replicate 40 0)[1 := 0x01] \<rparr>"
  have h: "state X = Fn_play_game" "250 \<le> millis frame_input - last_render X"
    "player_row X \<le> 3"
    unfolding X_def by code_simp+
  have v: "unat (player_row X) = 0" "shield_power X = 10"
    "sint (score (loop frame_input X)) = 82"
    unfolding X_def by code_simp+
  have hit: "bit (asteroids (loop frame_input X) ! unat (player_col (loop frame_input X))) 0"
    unfolding X_def by code_simp
  from play_frame_collision [OF h, of None] hit
  have 1: "backlight None (lcd (loop frame_input X)) = Some RED \<and>
        unat (shield_power (loop frame_input X)) = 9 \<and>
        state (loop frame_input X) = Fn_play_game"
    by (simp add: Let_def v)
  have h': "state play_example = Fn_play_game"
    "250 \<le> millis frame_input - last_render play_example"
    "player_row play_example \<le> 3"
    by code_simp+
  have v': "unat (player_row play_example) = 0" "shield_power play_example = 10"
    by code_simp+
  have miss: "\<not> bit (asteroids (loop frame_input play_example) !
                      unat (player_col (loop frame_input play_example))) 0"
    by code_simp
  have opp: "bit (asteroids (loop frame_input play_example) !
                  unat (player_col (loop frame_input play_example))) 1"
    by code_simp
  from play_frame_collision [OF h', of None] miss opp
  have 2: "unat (shield_power (loop frame_input play_example)) = 10 \<and>
           last (lcd (loop frame_input play_example)) =
             WriteGlyph TOP_SHIP_BOTTOM_ASTEROID_SPRITE_IDX"
    by (auto simp add: Let_def v')
  from h hit 1 h' miss 2 show ?thesis unfolding X_def by blast
qed


text \<open>
  The last frame of wave 1 in a game that has lost all ten shield points: the ship's own
  half of column 10 holds an obstacle and shield power is 0, so the collision branch
  assigns game-over; the same frame brings the score to 500 and the tick ends in end-wave.
\<close>

theorem collision_at_zero_ends_in_end_wave:
  "state last_frame_example = Fn_play_game \<and>
   250 \<le> millis last_frame_input - last_render last_frame_example \<and>
   shield_power last_frame_example = 0 \<and>
   bit (asteroids (loop last_frame_input last_frame_example) !
        unat (player_col (loop last_frame_input last_frame_example)))
       (unat (player_row last_frame_example)) \<and>
   state (render_frame last_frame_input (loop_prologue last_frame_input last_frame_example))
     = Fn_game_over \<and>
   sint (score (loop last_frame_input last_frame_example)) = 500 \<and>
   state (loop last_frame_input last_frame_example) = Fn_end_wave \<and>
   shield_power (loop last_frame_input last_frame_example) = 0"
  by code_simp

text \<open>
  C2 (amended). Shield power is unsigned; what the check before the decrement excludes is
  a decrement at 0, which would wrap to 255. In every state reached from the initial
  state shield power is at most 10 and the ship is on rows 0 to 3. Over a tick of the play
  state shield power never goes up and goes down by at most one; it is unchanged when no
  frame is rendered and when the frame has no collision. On a rendered frame with a
  collision (the ship's cell has the bit of the ship's half-row): shield power 0 stays 0
  and the next state is game-over, unless the score at the end of the tick is a multiple
  of 500, when the next state is end-wave; a positive shield power goes down by exactly
  one and the state stays play (or becomes end-wave on a multiple of 500).
\<close>

theorem shield_power_checked_before_decrement:
  "unat (shield_power (run setup_state es)) \<le> 10 \<and>
   unat (player_row (run setup_state es)) \<le> 3 \<and>
   (state s = Fn_play_game \<longrightarrow>
      unat (shield_power (loop e s)) \<le> unat (shield_power s) \<and>
      unat (shield_power s) \<le> unat (shield_power (loop e s)) + 1) \<and>
   (state s = Fn_play_game \<and> \<not> 250 \<le> millis e - last_render s \<longrightarrow>
      shield_power (loop e s) = shield_power s \<and>
      state (loop e s) =
        (if sint (score (loop e s)) smod 500 = 0 then Fn_end_wave else Fn_play_game)) \<and>
   (state s = Fn_play_game \<and> 250 \<le> millis e - last_render s \<and> player_row s \<le> 3 \<and>
    \<not> bit (asteroids (loop e s) ! unat (player_col (loop e s))) (unat (player_row s)) \<longrightarrow>
      shield_power (loop e s) = shield_power s \<and>
      state (loop e s) =
        (if sint (score (loop e s)) smod 500 = 0 then Fn_end_wave else Fn_play_game)) \<and>
   (state s = Fn_play_game \<and> 250 \<le> millis e - last_render s \<and> player_row s \<le> 3 \<and>
    bit (asteroids (loop e s) ! unat (player_col (loop e s))) (unat (player_row s)) \<longrightarrow>
      (if shield_power s = 0
       then shield_power (loop e s) = 0 \<and>
            state (loop e s) =
              (if sint (score (loop e s)) smod 500 = 0 then Fn_end_wave else Fn_game_over)
       else unat (shield_power (loop e s)) + 1 = unat (shield_power s) \<and>
            state (loop e s) =
              (if sint (score (loop e s)) smod 500 = 0 then Fn_end_wave else Fn_play_game)))"
proof -
  have b: "player_row (run setup_state es) \<le> 3 \<and> render_col (run setup_state es) \<le> 39 \<and>
           player_col (run setup_state es) \<le> 39 \<and> shield_power (run setup_state es) \<le> 10"
    by (rule run_bounds [OF setup_state_bounds])
  then have reach: "unat (shield_power (run setup_state es)) \<le> 10"
    "unat (player_row (run setup_state es)) \<le> 3"
    by (simp_all add: word_le_nat_alt)
  have dec: "unat (p - 1) + 1 = unat p" if "p \<noteq> 0" for p :: u8
    using that by (simp add: unat_minus_one unat_gt_0)
  have idle: "shield_power (loop e s) = shield_power s \<and>
      state (loop e s) =
        (if sint (score (loop e s)) smod 500 = 0 then Fn_end_wave else Fn_play_game)"
    if "state s = Fn_play_game" "\<not> 250 \<le> millis e - last_render s"
  proof -
    have "loop e s = play_game e (loop_prologue e s)"
      using that(1) by (rule loop_play_game)
    moreover have "\<not> 250 \<le> time (loop_prologue e s) - last_render (loop_prologue e s)"
      using that(2) by (simp add: loop_prologue_fields)
    ultimately show ?thesis
      using that(1)
      by (simp add: play_game_state)
         (simp add: play_game_def Let_def move_ship_fields loop_prologue_fields)
  qed
  have miss: "shield_power (loop e s) = shield_power s \<and>
      state (loop e s) =
        (if sint (score (loop e s)) smod 500 = 0 then Fn_end_wave else Fn_play_game)"
    if "state s = Fn_play_game" "250 \<le> millis e - last_render s"
       "\<not> bit (asteroids (loop e s) ! unat (player_col (loop e s))) (unat (player_row s))"
    using that(3) by (simp add: loop_frame_effect [OF that(1,2)])
  have hit: "if shield_power s = 0
       then shield_power (loop e s) = 0 \<and>
            state (loop e s) =
              (if sint (score (loop e s)) smod 500 = 0 then Fn_end_wave else Fn_game_over)
       else unat (shield_power (loop e s)) + 1 = unat (shield_power s) \<and>
            state (loop e s) =
              (if sint (score (loop e s)) smod 500 = 0 then Fn_end_wave else Fn_play_game)"
    if "state s = Fn_play_game" "250 \<le> millis e - last_render s"
       "bit (asteroids (loop e s) ! unat (player_col (loop e s))) (unat (player_row s))"
    using that(3) dec [of "shield_power s"]
    by (simp add: loop_frame_effect [OF that(1,2)])
  have tick: "unat (shield_power (loop e s)) \<le> unat (shield_power s) \<and>
      unat (shield_power s) \<le> unat (shield_power (loop e s)) + 1"
    if "state s = Fn_play_game"
  proof (cases "250 \<le> millis e - last_render s")
    case False
    with idle [OF that] show ?thesis by simp
  next
    case True
    have "shield_power (loop e s) = shield_power s \<or>
          (shield_power s \<noteq> 0 \<and> shield_power (loop e s) = shield_power s - 1)"
      by (simp add: loop_frame_effect(1) [OF that True])
    then show ?thesis using dec [of "shield_power s"] by auto
  qed
  from reach tick idle miss hit show ?thesis by blast
qed

theorem shield_power_checked_before_decrement_witness:
  "state (play_example\<lparr> asteroids := (replicate 40 0)[1 := 0x01], shield_power := 0 \<rparr>)
     = Fn_play_game \<and>
   250 \<le> millis frame_input - last_render
     (play_example\<lparr> asteroids := (replicate 40 0)[1 := 0x01], shield_power := 0 \<rparr>) \<and>
   player_row (play_example\<lparr> asteroids := (replicate 40 0)[1 := 0x01], shield_power := 0 \<rparr>) \<le> 3 \<and>
   bit (asteroids (loop frame_input
          (play_example\<lparr> asteroids := (replicate 40 0)[1 := 0x01], shield_power := 0 \<rparr>)) !
        unat (player_col (loop frame_input
          (play_example\<lparr> asteroids := (replicate 40 0)[1 := 0x01], shield_power := 0 \<rparr>))))
       (unat (player_row
          (play_example\<lparr> asteroids := (replicate 40 0)[1 := 0x01], shield_power := 0 \<rparr>))) \<and>
   shield_power (loop frame_input
     (play_example\<lparr> asteroids := (replicate 40 0)[1 := 0x01], shield_power := 0 \<rparr>)) = 0 \<and>
   state (loop frame_input
     (play_example\<lparr> asteroids := (replicate 40 0)[1 := 0x01], shield_power := 0 \<rparr>))
     = Fn_game_over \<and>
   unat (shield_power (loop frame_input
     (play_example\<lparr> asteroids := (replicate 40 0)[1 := 0x01] \<rparr>))) = 9 \<and>
   \<not> 250 \<le> millis (frame_input\<lparr> millis := 13100 \<rparr>) - last_render play_example \<and>
   unat (shield_power (loop (frame_input\<lparr> millis := 13100 \<rparr>) play_example)) = 10 \<and>
   \<not> bit (asteroids (loop frame_input play_example) !
          unat (player_col (loop frame_input play_example)))
         (unat (player_row play_example)) \<and>
   unat (shield_power (loop frame_input play_example)) = 10"
proof -
  define X where
    "X = play_example\<lparr> asteroids := (replicate 40 0)[1 := 0x01], shield_power := 0 \<rparr>"
  define Y where "Y = play_example\<lparr> asteroids := (replicate 40 0)[1 := 0x01] \<rparr>"
  define E where "E = frame_input\<lparr> millis := 13100 \<rparr>"
  have x: "state X = Fn_play_game" "250 \<le> millis frame_input - last_render X"
    "player_row X \<le> 3"
    "bit (asteroids (loop frame_input X) ! unat (player_col (loop frame_input X)))
         (unat (player_row X))"
    unfolding X_def by code_simp+
  have xv: "shield_power X = 0" "sint (score (loop frame_input X)) = 82"
    unfolding X_def by code_simp+
  from shield_power_checked_before_decrement [of "[]" X frame_input] x
  have 1: "shield_power (loop frame_input X) = 0 \<and> state (loop frame_input X) = Fn_game_over"
    by (simp add: xv)
  have y: "state Y = Fn_play_game" "250 \<le> millis frame_input - last_render Y"
    "player_row Y \<le> 3"
    "bit (asteroids (loop frame_input Y) ! unat (player_col (loop frame_input Y)))
         (unat (player_row Y))"
    unfolding Y_def by code_simp+
  have yv: "shield_power Y = 10" unfolding Y_def by code_simp
  from shield_power_checked_before_decrement [of "[]" Y frame_input] y
  have 2: "unat (shield_power (loop frame_input Y)) = 9"
    by (simp add: yv)
  have p: "state play_example = Fn_play_game"
    "\<not> 250 \<le> millis E - last_render play_example"
    "250 \<le> millis frame_input - last_render play_example"
    "player_row play_example \<le> 3"
    "\<not> bit (asteroids (loop frame_input play_example) !
            unat (player_col (loop frame_input play_example)))
           (unat (player_row play_example))"
    unfolding E_def by code_simp+
  have pv: "shield_power play_example = 10" by code_simp
  from shield_power_checked_before_decrement [of "[]" play_example E] p(1,2)
  have 3: "unat (shield_power (loop E play_example)) = 10"
    by (simp add: pv)
  from shield_power_checked_before_decrement [of "[]" play_example frame_input] p(1,3,4,5)
  have 4: "unat (shield_power (loop frame_input play_example)) = 10"
    by (simp add: pv)
  from x 1 2 p(2,5) 3 4 show ?thesis unfolding X_def Y_def E_def by blast
qed

end
